theory Spec2Isabelle
  imports Complex_Main "HOL-Library.List_Lexorder" "HOL-Library.Char_ord" "HOL-Library.AList"
begin

section \<open>The heating control loop of the Shelly local backend\<close>

text \<open>
  This theory embeds the boost routes and \<^verbatim>\<open>heatingControlLoop\<close> of
  \<^verbatim>\<open>shelly-local-backend/server.js\<close>. JavaScript numbers are idealised: temperatures
  are \<^typ>\<open>real\<close>, \<^verbatim>\<open>Date.now()\<close> and durations are \<^typ>\<open>int\<close> (milliseconds, minutes),
  and a \<^verbatim>\<open>Date\<close> object is its time value or the invalid date.
  Times of day are the strings the code compares, ordered as JavaScript orders strings
  (lexicographically, by character code). The configuration read from the JSON files is
  typed as the records below; inside the \<^verbatim>\<open>try\<close> block of a room the only call that
  throws on such typed data is the sensor request, whose exception the inner \<^verbatim>\<open>catch\<close>
  absorbs, so the outer \<^verbatim>\<open>catch\<close> has no branch in the model.
\<close>

subsection \<open>Data model\<close>

text \<open>The two strings a radiator command takes: \<^verbatim>\<open>"on"\<close> and \<^verbatim>\<open>"off"\<close>.\<close>

datatype radiator_state = StateOn | StateOff

text \<open>An entry of \<^verbatim>\<open>devices.json\<close>; \<open>btSensorId\<close> is \<open>None\<close> when the key is absent.\<close>

record device =
  deviceId :: string
  deviceName :: string
  ip :: string
  relayIndex :: nat
  btSensorId :: "nat option"

text \<open>A time slot of a schedule; both optional keys are \<open>None\<close> when undefined.\<close>

record slot =
  startTime :: string
  endTime :: string
  enabledRadiatorIds :: "string list option"
  slotTargetTempC :: "real option"

text \<open>
  An entry of \<^verbatim>\<open>rooms.json\<close>. \<open>schedule\<close> is \<open>None\<close> for \<^verbatim>\<open>null\<close>, else the object
  keyed by day name. \<open>targetTempC\<close> and \<open>hysteresisC\<close> are read in thermostat mode only.
\<close>

record room =
  roomId :: string
  roomName :: string
  radiatorDeviceIds :: "string list"
  controlMode :: string
  schedule :: "(string \<rightharpoonup> slot list) option"
  sensorDeviceId :: "string option"
  targetTempC :: real
  hysteresisC :: real

text \<open>
  A \<^verbatim>\<open>Date\<close> object: its time value in milliseconds since the epoch, or the invalid
  date, whose time value is NaN.
\<close>

datatype js_date = ValidDate int | InvalidDate

text \<open>An entry of \<^verbatim>\<open>activeBoosts\<close>; \<open>until\<close> is the \<^verbatim>\<open>Date\<close> built when the boost starts.\<close>

record boost =
  until :: js_date
  radiatorIds :: "string list"

type_synonym boost_store = "string \<rightharpoonup> boost"

text \<open>\<^verbatim>\<open>Date.getDay()\<close> yields one of seven values.\<close>

datatype weekday = Sun | Mon | Tue | Wed | Thu | Fri | Sat

text \<open>
  What one sensor request yields: the request throws (\<open>SensorError\<close>), or it answers and
  \<^verbatim>\<open>data?.value\<close> is a number or is undefined or null (\<open>SensorData None\<close>).
\<close>

datatype sensor_response = SensorError | SensorData "real option"

text \<open>
  What a room's iteration observes from outside: \<^verbatim>\<open>new Date()\<close> and the answer of the
  sensor at a given address and sensor id.
\<close>

record room_env =
  getDay :: weekday
  getHours :: nat
  getMinutes :: nat
  sensorGet :: "string \<Rightarrow> nat \<Rightarrow> sensor_response"

subsection \<open>Helpers\<close>

text \<open>
  \<^verbatim>\<open>new Date(ms)\<close>: a time value further than 8.64e15 ms from the epoch gives the invalid
  date.
\<close>

definition newDate :: "int \<Rightarrow> js_date" where
  "newDate ms = (if \<bar>ms\<bar> \<le> 8640000000000000 then ValidDate ms else InvalidDate)"

text \<open>
  \<^verbatim>\<open>until <= now\<close>, \<^verbatim>\<open>until > now\<close> and \<^verbatim>\<open>until - now\<close> for a date and a number: the
  date stands for its time value; with NaN both comparisons are false and the difference
  is NaN (\<open>None\<close>).
\<close>

fun dateLessEq :: "js_date \<Rightarrow> int \<Rightarrow> bool" where
  "dateLessEq (ValidDate u) now = (u \<le> now)"
| "dateLessEq InvalidDate now = False"

fun dateGreater :: "js_date \<Rightarrow> int \<Rightarrow> bool" where
  "dateGreater (ValidDate u) now = (u > now)"
| "dateGreater InvalidDate now = False"

fun dateMinus :: "js_date \<Rightarrow> int \<Rightarrow> int option" where
  "dateMinus (ValidDate u) now = Some (u - now)"
| "dateMinus InvalidDate now = None"

text \<open>\<^verbatim>\<open>devices.find((d) => d.id === deviceId)\<close>\<close>

fun findDeviceById :: "device list \<Rightarrow> string \<Rightarrow> device option" where
  "findDeviceById [] i = None"
| "findDeviceById (d # ds) i = (if deviceId d = i then Some d else findDeviceById ds i)"

text \<open>\<^verbatim>\<open>['sun', 'mon', 'tue', 'wed', 'thu', 'fri', 'sat'][now.getDay()]\<close>\<close>

fun dayOfWeek :: "weekday \<Rightarrow> string" where
  "dayOfWeek Sun = ''sun''"
| "dayOfWeek Mon = ''mon''"
| "dayOfWeek Tue = ''tue''"
| "dayOfWeek Wed = ''wed''"
| "dayOfWeek Thu = ''thu''"
| "dayOfWeek Fri = ''fri''"
| "dayOfWeek Sat = ''sat''"

text \<open>\<^verbatim>\<open>String(n)\<close> for a non-negative integer: its decimal digits.\<close>

definition digitChar :: "nat \<Rightarrow> char" where
  "digitChar d = ''0123456789'' ! (d mod 10)"

fun String_of_nat :: "nat \<Rightarrow> string" where
  "String_of_nat n =
     (if n < 10 then [digitChar n] else String_of_nat (n div 10) @ [digitChar (n mod 10)])"

text \<open>\<^verbatim>\<open>s.padStart(n, c)\<close> with a one-character pad.\<close>

definition padStart :: "nat \<Rightarrow> char \<Rightarrow> string \<Rightarrow> string" where
  "padStart n c s = replicate (n - length s) c @ s"

text \<open>
  The template \<^verbatim>\<open>`${String(h).padStart(2, '0')}:${String(m).padStart(2, '0')}`\<close>, and
  \<^verbatim>\<open>currentTime\<close>, its value at the hours and minutes of the room's clock.
\<close>

definition hhmm :: "nat \<Rightarrow> nat \<Rightarrow> string" where
  "hhmm h m =
     padStart 2 (CHR ''0'') (String_of_nat h) @ '':'' @ padStart 2 (CHR ''0'') (String_of_nat m)"

definition currentTime :: "room_env \<Rightarrow> string" where
  "currentTime env = hhmm (getHours env) (getMinutes env)"

text \<open>\<^verbatim>\<open>room.schedule?.[dayOfWeek] || []\<close>\<close>

definition todaysSchedule :: "room \<Rightarrow> room_env \<Rightarrow> slot list" where
  "todaysSchedule r env =
     (case schedule r of
        None \<Rightarrow> []
      | Some sch \<Rightarrow> (case sch (dayOfWeek (getDay env)) of None \<Rightarrow> [] | Some ss \<Rightarrow> ss))"

subsection \<open>Active slot\<close>

text \<open>The test of the slot loop: \<^verbatim>\<open>currentTime >= slot.startTime && currentTime < slot.endTime\<close>.\<close>

definition slotMatches :: "string \<Rightarrow> slot \<Rightarrow> bool" where
  "slotMatches t s \<longleftrightarrow> startTime s \<le> t \<and> t < endTime s"

text \<open>The slot loop: the first slot that passes the test, and then \<^verbatim>\<open>break\<close>.\<close>

fun findActiveSlot :: "string \<Rightarrow> slot list \<Rightarrow> slot option" where
  "findActiveSlot t [] = None"
| "findActiveSlot t (s # ss) = (if slotMatches t s then Some s else findActiveSlot t ss)"

text \<open>\<^verbatim>\<open>activeSlot?.enabledRadiatorIds || []\<close>\<close>

definition enabledIdsInSlot :: "slot option \<Rightarrow> string list" where
  "enabledIdsInSlot activeSlot =
     (case activeSlot of
        None \<Rightarrow> []
      | Some s \<Rightarrow> (case enabledRadiatorIds s of None \<Rightarrow> [] | Some ids \<Rightarrow> ids))"

subsection \<open>Thermostat decision\<close>

text \<open>
  The target of the thermostat: the active slot's \<^verbatim>\<open>targetTempC\<close> when there is an active
  slot and the key is defined, else the room's.
\<close>

definition targetTemp :: "room \<Rightarrow> slot option \<Rightarrow> real" where
  "targetTemp r activeSlot =
     (case activeSlot of
        None \<Rightarrow> targetTempC r
      | Some s \<Rightarrow> (case slotTargetTempC s of None \<Rightarrow> targetTempC r | Some t \<Rightarrow> t))"

text \<open>\<^verbatim>\<open>room.radiatorDeviceIds.some(id => lastCommandedRadiatorState[id] === 'on')\<close>\<close>

definition lastAnyRadOn :: "(string \<rightharpoonup> radiator_state) \<Rightarrow> room \<Rightarrow> bool" where
  "lastAnyRadOn lastState r \<longleftrightarrow> (\<exists>i \<in> set (radiatorDeviceIds r). lastState i = Some StateOn)"

text \<open>The three-way comparison against the band, for a temperature that was read.\<close>

definition decideByTemp :: "(string \<rightharpoonup> radiator_state) \<Rightarrow> room \<Rightarrow> slot option \<Rightarrow> real \<Rightarrow> bool" where
  "decideByTemp lastState r activeSlot currentTemp =
     (let lowerBound = targetTemp r activeSlot - hysteresisC r;
          upperBound = targetTemp r activeSlot + hysteresisC r
      in if currentTemp < lowerBound then True
         else if currentTemp > upperBound then False
         else lastAnyRadOn lastState r)"

text \<open>
  \<^verbatim>\<open>heatingNeededByTemp\<close>: false from the start, and assigned only in a thermostat room
  whose sensor id is truthy, whose sensor device exists and has a \<^verbatim>\<open>btSensorId\<close>, whose
  request does not throw and whose answer carries a value.
\<close>

definition heatingNeededByTemp ::
  "device list \<Rightarrow> (string \<rightharpoonup> radiator_state) \<Rightarrow> room_env \<Rightarrow> room \<Rightarrow> slot option \<Rightarrow> bool" where
  "heatingNeededByTemp devices lastState env r activeSlot =
     (if controlMode r = ''thermostat'' then
        (case sensorDeviceId r of
           None \<Rightarrow> False
         | Some sid \<Rightarrow>
             if sid = [] then False
             else (case findDeviceById devices sid of
                     None \<Rightarrow> False
                   | Some sensorDevice \<Rightarrow>
                       (case btSensorId sensorDevice of
                          None \<Rightarrow> False
                        | Some bt \<Rightarrow>
                            (case sensorGet env (ip sensorDevice) bt of
                               SensorError \<Rightarrow> False
                             | SensorData None \<Rightarrow> False
                             | SensorData (Some currentTemp) \<Rightarrow>
                                 decideByTemp lastState r activeSlot currentTemp))))
      else False)"

subsection \<open>Desired state of a radiator\<close>

text \<open>\<^verbatim>\<open>activeBoost && activeBoost.radiatorIds.includes(radiatorId)\<close>\<close>

definition isRadiatorBoosted :: "boost option \<Rightarrow> string \<Rightarrow> bool" where
  "isRadiatorBoosted activeBoost radiatorId =
     (case activeBoost of None \<Rightarrow> False | Some b \<Rightarrow> radiatorId \<in> set (radiatorIds b))"

text \<open>The body of the radiator loop: default off, boost first, then the mode.\<close>

definition desiredRadiatorState ::
  "room \<Rightarrow> boost option \<Rightarrow> string list \<Rightarrow> bool \<Rightarrow> string \<Rightarrow> radiator_state" where
  "desiredRadiatorState r activeBoost enabledIds heatingNeeded radiatorId =
     (if isRadiatorBoosted activeBoost radiatorId then StateOn
      else if controlMode r = ''thermostat'' then
        (if radiatorId \<in> set enabledIds \<and> heatingNeeded then StateOn else StateOff)
      else if controlMode r = ''schedule'' then
        (if radiatorId \<in> set enabledIds then StateOn else StateOff)
      else StateOff)"

text \<open>
  \<^verbatim>\<open>commandsToSend\<close> is an object: assigning a key that exists overwrites its value in
  place, a new key is added last. The association list keeps that order (JavaScript lists
  integer-like keys first; no statement below depends on the order).
\<close>

type_synonym commands = "(string \<times> radiator_state) list"

text \<open>The state a room's iteration computes for one of its radiators.\<close>

definition roomDesired ::
  "device list \<Rightarrow> boost_store \<Rightarrow> (string \<rightharpoonup> radiator_state) \<Rightarrow> room_env \<Rightarrow> room \<Rightarrow> string
     \<Rightarrow> radiator_state" where
  "roomDesired devices activeBoosts lastState env r radiatorId =
     (let activeBoost = activeBoosts (roomId r);
          activeSlot = findActiveSlot (currentTime env) (todaysSchedule r env)
      in desiredRadiatorState r activeBoost (enabledIdsInSlot activeSlot)
           (heatingNeededByTemp devices lastState env r activeSlot) radiatorId)"

text \<open>One iteration of the room loop: every radiator of the room is queued.\<close>

definition processRoom ::
  "device list \<Rightarrow> boost_store \<Rightarrow> (string \<rightharpoonup> radiator_state) \<Rightarrow> room_env \<Rightarrow> room \<Rightarrow> commands
     \<Rightarrow> commands" where
  "processRoom devices activeBoosts lastState env r commandsToSend =
     fold (\<lambda>radiatorId cmds.
             AList.update radiatorId (roomDesired devices activeBoosts lastState env r radiatorId) cmds)
       (radiatorDeviceIds r) commandsToSend"

text \<open>The room loop, each room with what it observes, from an empty \<^verbatim>\<open>commandsToSend\<close>.\<close>

definition computeCommands ::
  "device list \<Rightarrow> boost_store \<Rightarrow> (string \<rightharpoonup> radiator_state) \<Rightarrow> (room \<times> room_env) list \<Rightarrow> commands" where
  "computeCommands devices activeBoosts lastState rooms =
     fold (\<lambda>(r, env) cmds. processRoom devices activeBoosts lastState env r cmds) rooms []"

subsection \<open>Dispatch\<close>

text \<open>What the dispatch loop writes with \<^verbatim>\<open>console.error\<close>.\<close>

datatype log_entry = DeviceNotFound string | SetRelayFailed string radiator_state

text \<open>
  The state of the dispatch loop: \<^verbatim>\<open>lastCommandedRadiatorState\<close>, the set-relay requests
  made so far (device id and the state asked for) and the errors logged so far.
\<close>

record dispatch_state =
  lastCommandedRadiatorState :: "string \<rightharpoonup> radiator_state"
  relayCalls :: "(string \<times> radiator_state) list"
  errorLog :: "log_entry list"

text \<open>
  One iteration of the dispatch loop. \<open>setRelay device turnOn\<close> tells whether the request
  to that device returns (\<open>True\<close>) or throws.
\<close>

definition applyCommand ::
  "device list \<Rightarrow> (device \<Rightarrow> bool \<Rightarrow> bool) \<Rightarrow> string \<times> radiator_state \<Rightarrow> dispatch_state
     \<Rightarrow> dispatch_state" where
  "applyCommand devices setRelay cmd st =
     (let devId = fst cmd; desiredState = snd cmd
      in case findDeviceById devices devId of
           None \<Rightarrow> st\<lparr>errorLog := errorLog st @ [DeviceNotFound devId]\<rparr>
         | Some dev \<Rightarrow>
             if lastCommandedRadiatorState st devId \<noteq> Some desiredState then
               (if setRelay dev (desiredState = StateOn) then
                  st\<lparr>lastCommandedRadiatorState :=
                        (lastCommandedRadiatorState st)(devId \<mapsto> desiredState),
                     relayCalls := relayCalls st @ [(devId, desiredState)]\<rparr>
                else
                  st\<lparr>relayCalls := relayCalls st @ [(devId, desiredState)],
                     errorLog := errorLog st @ [SetRelayFailed devId desiredState]\<rparr>)
             else st)"

definition applyCommands ::
  "device list \<Rightarrow> (device \<Rightarrow> bool \<Rightarrow> bool) \<Rightarrow> commands \<Rightarrow> dispatch_state \<Rightarrow> dispatch_state" where
  "applyCommands devices setRelay commandsToSend st =
     fold (applyCommand devices setRelay) commandsToSend st"

subsection \<open>Boost store\<close>

text \<open>The clean-up at the start of a tick: every entry with \<^verbatim>\<open>until <= now\<close> is deleted.\<close>

definition pruneBoosts :: "int \<Rightarrow> boost_store \<Rightarrow> boost_store" where
  "pruneBoosts now activeBoosts =
     (\<lambda>rid. case activeBoosts rid of
               None \<Rightarrow> None
             | Some b \<Rightarrow> if dateLessEq (until b) now then None else Some b)"

datatype error = InvalidInput | NotFound

text \<open>The body of a successful boost answer.\<close>

record boost_response =
  respRoomId :: string
  boostedRadiators :: "string list"
  boostUntil :: js_date
  remainingMinutes :: int

text \<open>\<^verbatim>\<open>rooms.find(r => r.roomId === roomId)\<close>\<close>

fun findRoom :: "room list \<Rightarrow> string \<Rightarrow> room option" where
  "findRoom [] i = None"
| "findRoom (r # rs) i = (if roomId r = i then Some r else findRoom rs i)"

text \<open>
  \<^verbatim>\<open>POST /rooms/:roomId/boost\<close>. Status 400 is \<open>InvalidInput\<close>, 404 is \<open>NotFound\<close>.
  \<open>durationMinutes\<close> is \<open>None\<close> when the body has none; \<open>radiatorIds\<close> is \<open>None\<close> when the
  body's value is not an array.
\<close>

definition startBoost ::
  "room list \<Rightarrow> int \<Rightarrow> string \<Rightarrow> int option \<Rightarrow> string list option \<Rightarrow> boost_store
     \<Rightarrow> (error + boost_response) \<times> boost_store" where
  "startBoost rooms now rid durationMinutes radiatorIdsReq activeBoosts =
     (case durationMinutes of
        None \<Rightarrow> (Inl InvalidInput, activeBoosts)
      | Some dur \<Rightarrow>
          if dur = 0 \<or> dur \<le> 0 then (Inl InvalidInput, activeBoosts)
          else (case findRoom rooms rid of
                  None \<Rightarrow> (Inl NotFound, activeBoosts)
                | Some r \<Rightarrow>
                    let requested = (case radiatorIdsReq of None \<Rightarrow> [] | Some ids \<Rightarrow> ids);
                        boosted = (if requested \<noteq> []
                                   then filter (\<lambda>i. i \<in> set (radiatorDeviceIds r)) requested
                                   else radiatorDeviceIds r)
                    in if requested \<noteq> [] \<and> boosted = [] then (Inl InvalidInput, activeBoosts)
                       else
                         (let boostEnd = newDate (now + dur * 60 * 1000)
                          in (Inr \<lparr>respRoomId = rid, boostedRadiators = boosted,
                                   boostUntil = boostEnd, remainingMinutes = dur\<rparr>,
                              activeBoosts(rid \<mapsto> \<lparr>until = boostEnd, radiatorIds = boosted\<rparr>)))))"

text \<open>\<^verbatim>\<open>POST /rooms/:roomId/cancel-boost\<close>: the test is on the entry alone.\<close>

definition cancelBoost :: "string \<Rightarrow> boost_store \<Rightarrow> (error + unit) \<times> boost_store" where
  "cancelBoost rid activeBoosts =
     (case activeBoosts rid of
        None \<Rightarrow> (Inl NotFound, activeBoosts)
      | Some b \<Rightarrow> (Inr (), activeBoosts(rid := None)))"

text \<open>
  The answer of \<^verbatim>\<open>GET /rooms/:roomId/boost-status\<close>: not boosted, or boosted with the
  expiry, the radiators and the remaining minutes (\<open>None\<close> for NaN).
\<close>

datatype boost_status = NotBoosted | Boosted js_date "string list" "int option"

text \<open>\<^verbatim>\<open>Math.ceil(remainingMs / (60 * 1000))\<close>\<close>

definition ceilMinutes :: "int \<Rightarrow> int" where
  "ceilMinutes remainingMs = - ((- remainingMs) div (60 * 1000))"

text \<open>
  \<^verbatim>\<open>GET /rooms/:roomId/boost-status\<close>: an expired entry is deleted by the query itself.
  With the invalid date \<^verbatim>\<open>remainingMs\<close> is NaN, the test \<^verbatim>\<open>remainingMs <= 0\<close> is false
  and the answer is boosted.
\<close>

definition boostStatus :: "int \<Rightarrow> string \<Rightarrow> boost_store \<Rightarrow> boost_status \<times> boost_store" where
  "boostStatus now rid activeBoosts =
     (case activeBoosts rid of
        None \<Rightarrow> (NotBoosted, activeBoosts)
      | Some b \<Rightarrow>
          (case dateMinus (until b) now of
             None \<Rightarrow> (Boosted (until b) (radiatorIds b) None, activeBoosts)
           | Some remainingMs \<Rightarrow>
               if remainingMs \<le> 0 then (NotBoosted, activeBoosts(rid := None))
               else (Boosted (until b) (radiatorIds b) (Some (ceilMinutes remainingMs)),
                     activeBoosts)))"

text \<open>\<^verbatim>\<open>GET /rooms/boosted\<close>: collects the entries still running and deletes the others.\<close>

definition boostedRooms :: "int \<Rightarrow> boost_store \<Rightarrow> (string \<rightharpoonup> boost_status) \<times> boost_store" where
  "boostedRooms now activeBoosts =
     ((\<lambda>rid. case activeBoosts rid of
                None \<Rightarrow> None
              | Some b \<Rightarrow>
                  if dateGreater (until b) now
                  then Some (Boosted (until b) (radiatorIds b)
                               (map_option ceilMinutes (dateMinus (until b) now)))
                  else None),
      (\<lambda>rid. case activeBoosts rid of
                None \<Rightarrow> None
              | Some b \<Rightarrow> if dateGreater (until b) now then Some b else None))"

subsection \<open>The tick\<close>

text \<open>
  \<^verbatim>\<open>heatingControlLoop\<close>: prune, compute \<^verbatim>\<open>commandsToSend\<close> from the pruned store,
  dispatch. The result is the store, the commands and the dispatch state of this tick
  (its calls and errors start empty).
\<close>

definition heatingControlLoop ::
  "device list \<Rightarrow> (room \<times> room_env) list \<Rightarrow> int \<Rightarrow> (device \<Rightarrow> bool \<Rightarrow> bool)
     \<Rightarrow> boost_store \<Rightarrow> (string \<rightharpoonup> radiator_state)
     \<Rightarrow> boost_store \<times> commands \<times> dispatch_state" where
  "heatingControlLoop devices rooms now setRelay activeBoosts lastState =
     (let boosts = pruneBoosts now activeBoosts;
          commandsToSend = computeCommands devices boosts lastState rooms
      in (boosts, commandsToSend,
          applyCommands devices setRelay commandsToSend
            \<lparr>lastCommandedRadiatorState = lastState, relayCalls = [], errorLog = []\<rparr>))"

text \<open>
  The operations that touch the boost store, to speak of what happens after a prune.
\<close>

datatype boost_op =
    OpStart "room list" int string "int option" "string list option"
  | OpCancel string
  | OpStatus int string
  | OpBoosted int
  | OpPrune int

fun applyOp :: "boost_op \<Rightarrow> boost_store \<Rightarrow> boost_store" where
  "applyOp (OpStart rooms now rid dur ids) bs = snd (startBoost rooms now rid dur ids bs)"
| "applyOp (OpCancel rid) bs = snd (cancelBoost rid bs)"
| "applyOp (OpStatus now rid) bs = snd (boostStatus now rid bs)"
| "applyOp (OpBoosted now) bs = snd (boostedRooms now bs)"
| "applyOp (OpPrune now) bs = pruneBoosts now bs"

fun startsBoostFor :: "string \<Rightarrow> boost_op \<Rightarrow> bool" where
  "startsBoostFor rid (OpStart rooms now rid' dur ids) = (rid' = rid)"
| "startsBoostFor rid _ = False"

subsection \<open>Example data\<close>

text \<open>Three slots: a day slot, a shorter one inside it, and one written across midnight.\<close>

definition exSlotDay :: slot where
  "exSlotDay = \<lparr>startTime = ''09:00'', endTime = ''17:00'',
                 enabledRadiatorIds = Some [''a''], slotTargetTempC = None\<rparr>"

definition exSlotLate :: slot where
  "exSlotLate = \<lparr>startTime = ''10:00'', endTime = ''12:00'',
                  enabledRadiatorIds = Some [''b''], slotTargetTempC = None\<rparr>"

definition exSlotNight :: slot where
  "exSlotNight = \<lparr>startTime = ''22:00'', endTime = ''06:00'',
                   enabledRadiatorIds = Some [''a'', ''b''], slotTargetTempC = None\<rparr>"


text \<open>A boost store with one entry, for room \<open>r1\<close>, ending at time 1000.\<close>

definition exBoosts :: boost_store where
  "exBoosts = Map.empty(''r1'' \<mapsto> \<lparr>until = ValidDate 1000, radiatorIds = [''b'']\<rparr>)"


text \<open>
  A registry of two radiators and a sensor-bearing device, a schedule-mode room and a
  thermostat-mode room over the same Monday slots, and a Monday 10:30 clock with a given
  answer of the sensor.
\<close>

definition exRadiatorA :: device where
  "exRadiatorA = \<lparr>deviceId = ''a'', deviceName = ''Radiator A'', ip = ''10.0.0.1'',
                   relayIndex = 0, btSensorId = None\<rparr>"

definition exRadiatorB :: device where
  "exRadiatorB = \<lparr>deviceId = ''b'', deviceName = ''Radiator B'', ip = ''10.0.0.2'',
                   relayIndex = 0, btSensorId = None\<rparr>"

definition exSensorDevice :: device where
  "exSensorDevice = \<lparr>deviceId = ''s'', deviceName = ''Sensor'', ip = ''10.0.0.3'',
                      relayIndex = 0, btSensorId = Some 200\<rparr>"

definition exDevices :: "device list" where
  "exDevices = [exRadiatorA, exRadiatorB, exSensorDevice]"

definition exRoomSchedule :: room where
  "exRoomSchedule =
     \<lparr>roomId = ''r1'', roomName = ''Lounge'', radiatorDeviceIds = [''a'', ''b''],
      controlMode = ''schedule'',
      schedule = Some (Map.empty(''mon'' \<mapsto> [exSlotDay, exSlotLate])),
      sensorDeviceId = None, targetTempC = 0, hysteresisC = 0\<rparr>"

definition exRoomThermostat :: room where
  "exRoomThermostat =
     \<lparr>roomId = ''r2'', roomName = ''Study'', radiatorDeviceIds = [''a'', ''b''],
      controlMode = ''thermostat'',
      schedule = Some (Map.empty(''mon'' \<mapsto> [exSlotDay, exSlotLate])),
      sensorDeviceId = Some ''s'', targetTempC = 20, hysteresisC = 1\<rparr>"

definition exEnv :: "sensor_response \<Rightarrow> room_env" where
  "exEnv answer = \<lparr>getDay = Mon, getHours = 10, getMinutes = 30, sensorGet = (\<lambda>_ _. answer)\<rparr>"


text \<open>A schedule-mode room whose only radiator, \<open>x\<close>, is not in the example registry.\<close>

definition exRoomOrphan :: room where
  "exRoomOrphan =
     \<lparr>roomId = ''r3'', roomName = ''Attic'', radiatorDeviceIds = [''x''],
      controlMode = ''schedule'',
      schedule = Some (Map.empty(''mon'' \<mapsto>
        [\<lparr>startTime = ''09:00'', endTime = ''17:00'', enabledRadiatorIds = Some [''x''],
          slotTargetTempC = None\<rparr>])),
      sensorDeviceId = None, targetTempC = 0, hysteresisC = 0\<rparr>"

text \<open>
  A schedule-mode room whose Monday and Tuesday schedules differ (Tuesday's two slots
  overlap), and a clock for any day, hour and minute, with a sensor that never answers.
\<close>

definition exRoomWeek :: room where
  "exRoomWeek =
     \<lparr>roomId = ''r4'', roomName = ''Hall'', radiatorDeviceIds = [''a'', ''b''],
      controlMode = ''schedule'',
      schedule = Some (Map.empty(''mon'' \<mapsto> [exSlotDay], ''tue'' \<mapsto> [exSlotLate, exSlotDay])),
      sensorDeviceId = None, targetTempC = 0, hysteresisC = 0\<rparr>"

definition exClock :: "weekday \<Rightarrow> nat \<Rightarrow> nat \<Rightarrow> room_env" where
  "exClock d h m = \<lparr>getDay = d, getHours = h, getMinutes = m, sensorGet = (\<lambda>_ _. SensorError)\<rparr>"

section \<open>Properties\<close>

subsection \<open>Times of day as strings\<close>

declare String_of_nat.simps [simp del]

text \<open>
  For hours and minutes of a day the strings are ordered as the times are, so a slot whose
  bounds are written \<^verbatim>\<open>HH:MM\<close> is tested against the time of day.
\<close>

lemma pad2: "n < 100 \<Longrightarrow> padStart 2 (CHR ''0'') (String_of_nat n) = [digitChar (n div 10), digitChar (n mod 10)]"
proof (cases "n < 10")
  case True
  then show ?thesis by (simp add: padStart_def digitChar_def String_of_nat.simps[of n])
next
  case False
  assume "n < 100"
  with False have "n div 10 < 10" by simp
  with False show ?thesis by (simp add: padStart_def String_of_nat.simps[of n] String_of_nat.simps[of "n div 10"])
qed

lemma hhmm_digits: "h < 100 \<Longrightarrow> m < 100 \<Longrightarrow>
  hhmm h m = [digitChar (h div 10), digitChar (h mod 10), CHR '':'', digitChar (m div 10), digitChar (m mod 10)]"
  by (simp add: hhmm_def pad2)

lemma digit_cases: "a < (10::nat) \<Longrightarrow> a = 0 \<or> a = 1 \<or> a = 2 \<or> a = 3 \<or> a = 4 \<or> a = 5 \<or> a = 6 \<or> a = 7 \<or> a = 8 \<or> a = 9"
  by arith

lemma of_char_digitChar: "a < 10 \<Longrightarrow> (of_char (digitChar a) :: nat) = 48 + a"
  using digit_cases[of a] by (auto simp: digitChar_def)

lemma digitChar_less: "a < 10 \<Longrightarrow> b < 10 \<Longrightarrow> digitChar a < digitChar b \<longleftrightarrow> a < b"
  by (simp add: less_char_def of_char_digitChar)

lemma digitChar_eq: "a < 10 \<Longrightarrow> b < 10 \<Longrightarrow> digitChar a = digitChar b \<longleftrightarrow> a = b"
  by (metis of_char_digitChar add_left_cancel)


lemma two_digit_less:
  fixes a b :: nat
  shows "a < b \<longleftrightarrow> a div 10 < b div 10 \<or> (a div 10 = b div 10 \<and> a mod 10 < b mod 10)"
proof -
  have a: "a = 10 * (a div 10) + a mod 10" by simp
  have b: "b = 10 * (b div 10) + b mod 10" by simp
  have la: "a mod 10 < 10" and lb: "b mod 10 < 10" by simp_all
  show ?thesis using a b la lb by linarith
qed

lemma two_digit_eq:
  fixes a b :: nat
  shows "a = b \<longleftrightarrow> a div 10 = b div 10 \<and> a mod 10 = b mod 10"
  by (metis div_mult_mod_eq)

lemma hhmm_less:
  assumes "h < 24" "m < 60" "h' < 24" "m' < 60"
  shows "hhmm h m < hhmm h' m' \<longleftrightarrow> 60 * h + m < 60 * h' + m'"
proof -
  have d: "h div 10 < 10" "h mod 10 < 10" "m div 10 < 10" "m mod 10 < 10"
          "h' div 10 < 10" "h' mod 10 < 10" "m' div 10 < 10" "m' mod 10 < 10"
    using assms by simp_all
  have b: "h < 100" "m < 100" "h' < 100" "m' < 100" using assms by simp_all
  have "hhmm h m < hhmm h' m' \<longleftrightarrow>
     h div 10 < h' div 10 \<or> (h div 10 = h' div 10 \<and> (h mod 10 < h' mod 10 \<or> (h mod 10 = h' mod 10 \<and>
       (m div 10 < m' div 10 \<or> (m div 10 = m' div 10 \<and> m mod 10 < m' mod 10)))))"
    by (simp add: hhmm_digits[OF b(1,2)] hhmm_digits[OF b(3,4)] digitChar_less[OF d(1) d(5)]
        digitChar_less[OF d(2) d(6)] digitChar_less[OF d(3) d(7)] digitChar_less[OF d(4) d(8)]
        digitChar_eq[OF d(1) d(5)] digitChar_eq[OF d(2) d(6)] digitChar_eq[OF d(3) d(7)])
  also have "\<dots> \<longleftrightarrow> h < h' \<or> (h = h' \<and> m < m')"
    using two_digit_less[of h h'] two_digit_less[of m m'] two_digit_eq[of h h'] by blast
  also have "\<dots> \<longleftrightarrow> 60 * h + m < 60 * h' + m'"
    using assms by linarith
  finally show ?thesis .
qed

lemma hhmm_inj:
  assumes "h < 24" "m < 60" "h' < 24" "m' < 60"
  shows "hhmm h m = hhmm h' m' \<longleftrightarrow> h = h' \<and> m = m'"
proof -
  have d: "h div 10 < 10" "h mod 10 < 10" "m div 10 < 10" "m mod 10 < 10"
          "h' div 10 < 10" "h' mod 10 < 10" "m' div 10 < 10" "m' mod 10 < 10"
    using assms by simp_all
  have b: "h < 100" "m < 100" "h' < 100" "m' < 100" using assms by simp_all
  have "hhmm h m = hhmm h' m' \<longleftrightarrow>
     h div 10 = h' div 10 \<and> h mod 10 = h' mod 10 \<and> m div 10 = m' div 10 \<and> m mod 10 = m' mod 10"
    by (simp add: hhmm_digits[OF b(1,2)] hhmm_digits[OF b(3,4)]
        digitChar_eq[OF d(1) d(5)] digitChar_eq[OF d(2) d(6)] digitChar_eq[OF d(3) d(7)]
        digitChar_eq[OF d(4) d(8)])
  also have "\<dots> \<longleftrightarrow> h = h' \<and> m = m'"
    using two_digit_eq[of h h'] two_digit_eq[of m m'] by blast
  finally show ?thesis .
qed

lemma hhmm_le:
  assumes "h < 24" "m < 60" "h' < 24" "m' < 60"
  shows "hhmm h m \<le> hhmm h' m' \<longleftrightarrow> 60 * h + m \<le> 60 * h' + m'"
proof -
  have "hhmm h m \<le> hhmm h' m' \<longleftrightarrow> hhmm h m < hhmm h' m' \<or> hhmm h m = hhmm h' m'"
    by (rule le_less)
  also have "\<dots> \<longleftrightarrow> 60 * h + m < 60 * h' + m' \<or> (h = h' \<and> m = m')"
    by (simp add: hhmm_less[OF assms] hhmm_inj[OF assms])
  also have "\<dots> \<longleftrightarrow> 60 * h + m \<le> 60 * h' + m'"
  proof -
    have "h = h' \<and> m = m' \<longleftrightarrow> 60 * h + m = 60 * h' + m'"
    proof
      assume "h = h' \<and> m = m'"
      then show "60 * h + m = 60 * h' + m'" by simp
    next
      assume e: "60 * h + m = 60 * h' + m'"
      have "h = h'"
      proof (rule ccontr)
        assume "h \<noteq> h'"
        then have "h < h' \<or> h' < h" by linarith
        then show False using e assms by linarith
      qed
      with e show "h = h' \<and> m = m'" by simp
    qed
    then show ?thesis by linarith
  qed
  finally show ?thesis .
qed

lemma slotMatches_hhmm:
  assumes "h < 24" "m < 60" "h1 < 24" "m1 < 60" "h2 < 24" "m2 < 60"
    and "startTime s = hhmm h1 m1" "endTime s = hhmm h2 m2"
  shows "slotMatches (hhmm h m) s \<longleftrightarrow>
           60 * h1 + m1 \<le> 60 * h + m \<and> 60 * h + m < 60 * h2 + m2"
  using assms by (simp add: slotMatches_def hhmm_le hhmm_less)

subsection \<open>Active-slot selection\<close>

lemma findActiveSlot_None:
  "findActiveSlot t slots = None \<longleftrightarrow> (\<forall>s \<in> set slots. \<not> slotMatches t s)"
  by (induction slots) auto

lemma findActiveSlot_Some:
  "findActiveSlot t slots = Some s \<longleftrightarrow>
     (\<exists>i < length slots. slots ! i = s \<and> slotMatches t s \<and> (\<forall>j < i. \<not> slotMatches t (slots ! j)))"
proof (induction slots)
  case Nil
  then show ?case by simp
next
  case (Cons a slots)
  let ?first = "\<lambda>xs i. i < length xs \<and> xs ! i = s \<and> slotMatches t s \<and> (\<forall>j < i. \<not> slotMatches t (xs ! j))"
  show ?case
  proof (cases "slotMatches t a")
    case True
    have "(\<exists>i. ?first (a # slots) i) \<longleftrightarrow> a = s"
    proof
      assume "\<exists>i. ?first (a # slots) i"
      then obtain i where i: "?first (a # slots) i" by blast
      have "i = 0"
      proof (rule ccontr)
        assume "i \<noteq> 0"
        then have "0 < i" by simp
        with i have "\<not> slotMatches t ((a # slots) ! 0)" by blast
        with True show False by simp
      qed
      with i show "a = s" by simp
    next
      assume "a = s"
      with True have "?first (a # slots) 0" by simp
      then show "\<exists>i. ?first (a # slots) i" ..
    qed
    with True show ?thesis by simp
  next
    case False
    have "(\<exists>i. ?first (a # slots) i) \<longleftrightarrow> (\<exists>k. ?first slots k)"
    proof
      assume "\<exists>i. ?first (a # slots) i"
      then obtain i where i: "?first (a # slots) i" by blast
      with False have "i \<noteq> 0" by (cases i) auto
      then obtain k where k: "i = Suc k" by (cases i) auto
      have "\<forall>j < k. \<not> slotMatches t (slots ! j)"
      proof (intro allI impI)
        fix j assume "j < k"
        then have "Suc j < i" using k by simp
        with i have "\<not> slotMatches t ((a # slots) ! Suc j)" by blast
        then show "\<not> slotMatches t (slots ! j)" by simp
      qed
      with i k have "?first slots k" by auto
      then show "\<exists>k. ?first slots k" ..
    next
      assume "\<exists>k. ?first slots k"
      then obtain k where k: "?first slots k" by blast
      have "\<forall>j < Suc k. \<not> slotMatches t ((a # slots) ! j)"
      proof (intro allI impI)
        fix j assume "j < Suc k"
        then show "\<not> slotMatches t ((a # slots) ! j)" using False k by (cases j) auto
      qed
      with k have "?first (a # slots) (Suc k)" by auto
      then show "\<exists>i. ?first (a # slots) i" ..
    qed
    with False Cons.IH show ?thesis by simp
  qed
qed

text \<open>
  C6. The active slot is the first slot, in stored order, with \<open>start \<le> now < end\<close>: there
  is none exactly when no slot contains the time; slot \<open>s\<close> is chosen exactly when it stands
  at a position where it contains the time and no earlier position does (so of several
  overlapping slots the earliest stored wins); and a slot whose end is not later than its
  start is never chosen, whatever the time.
\<close>

theorem findActiveSlot_first_match:
  "(findActiveSlot t slots = None \<longleftrightarrow>
      (\<forall>x \<in> set slots. \<not> (startTime x \<le> t \<and> t < endTime x))) \<and>
   (findActiveSlot t slots = Some s \<longleftrightarrow>
      (\<exists>i < length slots. slots ! i = s \<and> startTime s \<le> t \<and> t < endTime s \<and>
         (\<forall>j < i. \<not> (startTime (slots ! j) \<le> t \<and> t < endTime (slots ! j))))) \<and>
   (endTime s \<le> startTime s \<longrightarrow> findActiveSlot t slots \<noteq> Some s)"
proof (intro conjI)
  show "findActiveSlot t slots = None \<longleftrightarrow>
      (\<forall>x \<in> set slots. \<not> (startTime x \<le> t \<and> t < endTime x))"
    using findActiveSlot_None[of t slots] by (simp add: slotMatches_def)
  show "findActiveSlot t slots = Some s \<longleftrightarrow>
      (\<exists>i < length slots. slots ! i = s \<and> startTime s \<le> t \<and> t < endTime s \<and>
         (\<forall>j < i. \<not> (startTime (slots ! j) \<le> t \<and> t < endTime (slots ! j))))"
    using findActiveSlot_Some[of t slots s] by (simp add: slotMatches_def)
  show "endTime s \<le> startTime s \<longrightarrow> findActiveSlot t slots \<noteq> Some s"
  proof
    assume e: "endTime s \<le> startTime s"
    show "findActiveSlot t slots \<noteq> Some s"
    proof
      assume "findActiveSlot t slots = Some s"
      then have "slotMatches t s" using findActiveSlot_Some[of t slots s] by blast
      then have "startTime s < endTime s" by (auto simp: slotMatches_def)
      with e show False by simp
    qed
  qed
qed

theorem findActiveSlot_first_match_witness:
  "findActiveSlot ''10:30'' [exSlotNight, exSlotDay, exSlotLate] = Some exSlotDay \<and>
   findActiveSlot ''23:30'' [exSlotNight] = None \<and>
   findActiveSlot ''23:30'' [exSlotNight] \<noteq> Some exSlotNight"
proof -
  let ?xs = "[exSlotNight, exSlotDay, exSlotLate]"
  have pos: "(1::nat) < length ?xs \<and> ?xs ! 1 = exSlotDay \<and>
      startTime exSlotDay \<le> ''10:30'' \<and> ''10:30'' < endTime exSlotDay \<and>
      (\<forall>j < 1. \<not> (startTime (?xs ! j) \<le> ''10:30'' \<and> ''10:30'' < endTime (?xs ! j)))"
    by (simp add: exSlotDay_def exSlotNight_def)
  have a: "findActiveSlot ''10:30'' ?xs = Some exSlotDay"
    using findActiveSlot_first_match[of "''10:30''" ?xs exSlotDay] pos by blast
  have n: "\<forall>x \<in> set [exSlotNight]. \<not> (startTime x \<le> ''23:30'' \<and> ''23:30'' < endTime x)"
    by (simp add: exSlotNight_def)
  have b: "findActiveSlot ''23:30'' [exSlotNight] = None"
    using findActiveSlot_first_match[of "''23:30''" "[exSlotNight]" exSlotNight] n by blast
  have e: "endTime exSlotNight \<le> startTime exSlotNight"
    by (simp add: exSlotNight_def)
  have c: "findActiveSlot ''23:30'' [exSlotNight] \<noteq> Some exSlotNight"
    using findActiveSlot_first_match[of "''23:30''" "[exSlotNight]" exSlotNight] e by blast
  from a b c show ?thesis by blast
qed

subsection \<open>Cancelling a boost\<close>

text \<open>
  C10. Cancelling tests the presence of an entry only: for a room whose entry has expired
  (\<open>until \<le> now\<close>) and is still in the store, cancelling succeeds and removes the entry;
  the answer is \<open>NotFound\<close> exactly when the room has no entry at all, and then the store
  is left as it is.
\<close>

theorem cancelBoost_presence_only:
  "(activeBoosts rid = Some b \<and> until b = ValidDate u \<and> u \<le> now \<longrightarrow>
      cancelBoost rid activeBoosts = (Inr (), activeBoosts(rid := None))) \<and>
   (fst (cancelBoost rid activeBoosts) = Inl NotFound \<longleftrightarrow> activeBoosts rid = None) \<and>
   (activeBoosts rid = None \<longrightarrow> snd (cancelBoost rid activeBoosts) = activeBoosts)"
proof (cases "activeBoosts rid")
  case None
  then show ?thesis by (simp add: cancelBoost_def)
next
  case (Some entry)
  then have "cancelBoost rid activeBoosts = (Inr (), activeBoosts(rid := None))"
    by (simp add: cancelBoost_def)
  with Some show ?thesis by simp
qed

theorem cancelBoost_presence_only_witness:
  "exBoosts ''r1'' = Some \<lparr>until = ValidDate 1000, radiatorIds = [''b'']\<rparr> \<and>
   until \<lparr>until = ValidDate 1000, radiatorIds = [''b'']\<rparr> = ValidDate 1000 \<and>
   (1000::int) \<le> 2000 \<and>
   cancelBoost ''r1'' exBoosts = (Inr (), exBoosts(''r1'' := None)) \<and>
   fst (cancelBoost ''r2'' exBoosts) = Inl NotFound \<and>
   snd (cancelBoost ''r2'' exBoosts) = exBoosts"
proof -
  have h: "exBoosts ''r1'' = Some \<lparr>until = ValidDate 1000, radiatorIds = [''b'']\<rparr> \<and>
           until \<lparr>until = ValidDate 1000, radiatorIds = [''b'']\<rparr> = ValidDate 1000 \<and>
           (1000::int) \<le> 2000"
    by (simp add: exBoosts_def)
  have n: "exBoosts ''r2'' = None"
    by (simp add: exBoosts_def)
  from h n show ?thesis
    using cancelBoost_presence_only[of exBoosts "''r1''"
        "\<lparr>until = ValidDate 1000, radiatorIds = [''b'']\<rparr>" 1000 2000]
      cancelBoost_presence_only[of exBoosts "''r2''"
        "\<lparr>until = ValidDate 1000, radiatorIds = [''b'']\<rparr>" 1000 2000]
    by blast
qed

subsection \<open>The commands a tick computes\<close>

lemma map_of_processRoom:
  "map_of (processRoom devices bs ls env r cmds) R =
     (if R \<in> set (radiatorDeviceIds r) then Some (roomDesired devices bs ls env r R)
      else map_of cmds R)"
proof -
  have "map_of (fold (\<lambda>k c. AList.update k (f k) c) ks cmds) R =
          (if R \<in> set ks then Some (f R) else map_of cmds R)" for f ks
    by (induction ks arbitrary: cmds) (auto simp: update_conv')
  then show ?thesis by (simp add: processRoom_def)
qed

lemma map_of_fold_processRoom_other:
  "\<forall>p \<in> set post. R \<notin> set (radiatorDeviceIds (fst p)) \<Longrightarrow>
   map_of (fold (\<lambda>(r, env) cmds. processRoom devices bs ls env r cmds) post cmds) R = map_of cmds R"
  by (induction post arbitrary: cmds) (auto simp: map_of_processRoom)

text \<open>
  The entry of \<^verbatim>\<open>commandsToSend\<close> for a radiator is the state computed in the iteration
  of the last room that lists it.
\<close>

lemma map_of_computeCommands:
  assumes "R \<in> set (radiatorDeviceIds r)"
    and "\<forall>p \<in> set post. R \<notin> set (radiatorDeviceIds (fst p))"
  shows "map_of (computeCommands devices bs ls (pre @ (r, env) # post)) R =
           Some (roomDesired devices bs ls env r R)"
  using assms by (simp add: computeCommands_def map_of_fold_processRoom_other map_of_processRoom)

lemma distinct_processRoom:
  "distinct (map fst cmds) \<Longrightarrow> distinct (map fst (processRoom devices bs ls env r cmds))"
proof -
  have "distinct (map fst cmds) \<Longrightarrow>
          distinct (map fst (fold (\<lambda>k c. AList.update k (f k) c) ks cmds))" for f ks
    by (induction ks arbitrary: cmds) (auto simp: distinct_update)
  then show "distinct (map fst cmds) \<Longrightarrow> ?thesis" by (simp add: processRoom_def)
qed

lemma distinct_computeCommands: "distinct (map fst (computeCommands devices bs ls rooms))"
proof -
  have "distinct (map fst cmds) \<Longrightarrow>
          distinct (map fst (fold (\<lambda>(r, env) c. processRoom devices bs ls env r c) rooms cmds))"
    for cmds
    by (induction rooms arbitrary: cmds) (auto simp: distinct_processRoom)
  then show ?thesis by (simp add: computeCommands_def)
qed

lemma currentTime_exEnv: "currentTime (exEnv answer) = ''10:30''"
  by (simp add: currentTime_def exEnv_def hhmm_digits digitChar_def)

lemma todaysSchedule_exRoomSchedule:
  "todaysSchedule exRoomSchedule (exEnv answer) = [exSlotDay, exSlotLate]"
  by (simp add: todaysSchedule_def exRoomSchedule_def exEnv_def)

lemma todaysSchedule_exRoomThermostat:
  "todaysSchedule exRoomThermostat (exEnv answer) = [exSlotDay, exSlotLate]"
  by (simp add: todaysSchedule_def exRoomThermostat_def exEnv_def)

subsection \<open>Boost\<close>

text \<open>
  C3. Boost always wins. Take a room with an entry in the boost store that has not expired
  at the tick (\<open>now < until\<close>, \<open>until\<close> a valid date) and whose radiator list has \<open>R\<close>. Then the state the room's
  iteration computes for \<open>R\<close> is on, whatever the room's mode, schedule, clock, sensor
  answer and last commanded states; and when \<open>R\<close> is a radiator of the room that no later
  room of the registry lists too, that is the tick's desired state for \<open>R\<close>.
\<close>

theorem boost_always_wins:
  assumes "activeBoosts (roomId r) = Some b" and "until b = ValidDate u" and "now < u"
    and "R \<in> set (radiatorIds b)"
  shows "roomDesired devices (pruneBoosts now activeBoosts) lastState env r R = StateOn \<and>
         (R \<in> set (radiatorDeviceIds r) \<and>
          (\<forall>p \<in> set post. R \<notin> set (radiatorDeviceIds (fst p))) \<longrightarrow>
            map_of (fst (snd (heatingControlLoop devices (pre @ (r, env) # post) now setRelay
                                activeBoosts lastState))) R = Some StateOn)"
proof -
  have "pruneBoosts now activeBoosts (roomId r) = Some b"
    using assms(1,2,3) by (simp add: pruneBoosts_def)
  then have d: "roomDesired devices (pruneBoosts now activeBoosts) lastState env r R = StateOn"
    using assms(4) by (simp add: roomDesired_def desiredRadiatorState_def isRadiatorBoosted_def)
  have "map_of (fst (snd (heatingControlLoop devices (pre @ (r, env) # post) now setRelay
                            activeBoosts lastState))) R = Some StateOn"
    if own: "R \<in> set (radiatorDeviceIds r)"
      and last: "\<forall>p \<in> set post. R \<notin> set (radiatorDeviceIds (fst p))"
    using map_of_computeCommands[OF own last] d by (simp add: heatingControlLoop_def Let_def)
  with d show ?thesis by blast
qed

theorem boost_always_wins_witness:
  "roomDesired exDevices (pruneBoosts 500 exBoosts) Map.empty (exEnv SensorError)
     exRoomSchedule ''b'' = StateOn \<and>
   map_of (fst (snd (heatingControlLoop exDevices
      ([] @ (exRoomSchedule, exEnv SensorError) # []) 500 (\<lambda>dev turnOn. True) exBoosts Map.empty)))
     ''b'' = Some StateOn"
proof -
  have e: "exBoosts (roomId exRoomSchedule) = Some \<lparr>until = ValidDate 1000, radiatorIds = [''b'']\<rparr>"
    by (simp add: exBoosts_def exRoomSchedule_def)
  have v: "until \<lparr>until = ValidDate 1000, radiatorIds = [''b'']\<rparr> = ValidDate 1000" by simp
  have u: "(500::int) < 1000" by simp
  have c: "''b'' \<in> set (radiatorIds \<lparr>until = ValidDate 1000, radiatorIds = [''b'']\<rparr>)" by simp
  have own: "''b'' \<in> set (radiatorDeviceIds exRoomSchedule)"
    by (simp add: exRoomSchedule_def)
  have last: "\<forall>p \<in> set ([] :: (room \<times> room_env) list). ''b'' \<notin> set (radiatorDeviceIds (fst p))"
    by simp
  from boost_always_wins[of exBoosts exRoomSchedule
      "\<lparr>until = ValidDate 1000, radiatorIds = [''b'']\<rparr>" 1000 500
      "''b''" exDevices Map.empty "exEnv SensorError" "[]" "[]" "\<lambda>dev turnOn. True", OF e v u c]
    own last
  show ?thesis by blast
qed

subsection \<open>Schedule mode\<close>

lemma enabled_in_active_slot:
  "R \<in> set (enabledIdsInSlot (findActiveSlot t slots)) \<longleftrightarrow>
     (\<exists>i < length slots. startTime (slots ! i) \<le> t \<and> t < endTime (slots ! i) \<and>
        (\<forall>j < i. \<not> (startTime (slots ! j) \<le> t \<and> t < endTime (slots ! j))) \<and>
        (\<exists>ids. enabledRadiatorIds (slots ! i) = Some ids \<and> R \<in> set ids))"
  (is "?L \<longleftrightarrow> ?R")
proof
  assume l: ?L
  then obtain s where s: "findActiveSlot t slots = Some s"
    by (cases "findActiveSlot t slots") (auto simp: enabledIdsInSlot_def)
  with l obtain ids where ids: "enabledRadiatorIds s = Some ids" "R \<in> set ids"
    by (cases "enabledRadiatorIds s") (auto simp: enabledIdsInSlot_def)
  from s obtain i where "i < length slots" "slots ! i = s" "slotMatches t s"
    "\<forall>j < i. \<not> slotMatches t (slots ! j)"
    using findActiveSlot_Some[of t slots s] by blast
  with ids show ?R unfolding slotMatches_def by blast
next
  assume ?R
  then obtain i ids where i: "i < length slots" "slotMatches t (slots ! i)"
    "\<forall>j < i. \<not> slotMatches t (slots ! j)"
    and ids: "enabledRadiatorIds (slots ! i) = Some ids" "R \<in> set ids"
    unfolding slotMatches_def by blast
  from i have "findActiveSlot t slots = Some (slots ! i)"
    using findActiveSlot_Some[of t slots "slots ! i"] by blast
  with ids show ?L by (simp add: enabledIdsInSlot_def)
qed

lemma slotMatches_exSlotDay: "slotMatches ''10:30'' exSlotDay"
  by (simp add: slotMatches_def exSlotDay_def)

lemma roomDesired_schedule:
  assumes "controlMode r = ''schedule''" and "bs (roomId r) = None"
  shows "roomDesired devices bs ls env r R =
           (if R \<in> set (enabledIdsInSlot (findActiveSlot (currentTime env) (todaysSchedule r env)))
            then StateOn else StateOff)"
  using assms by (simp add: roomDesired_def desiredRadiatorState_def isRadiatorBoosted_def)

lemma currentTime_clock:
  assumes "getHours env = h" and "getMinutes env = m" and "h < 24" and "m < 60"
  shows "currentTime env =
           [''0123456789'' ! (h div 10), ''0123456789'' ! (h mod 10), CHR '':'',
            ''0123456789'' ! (m div 10), ''0123456789'' ! (m mod 10)]"
proof -
  have "h < 100" and "m < 100" using assms(3,4) by simp_all
  moreover have "h div 10 mod 10 = h div 10" and "m div 10 mod 10 = m div 10"
    using assms(3,4) by simp_all
  ultimately show ?thesis
    using assms(1,2) by (simp add: currentTime_def hhmm_digits digitChar_def)
qed

lemma todaysSchedule_day:
  assumes "(getDay env, day) \<in> set [(Sun, ''sun''), (Mon, ''mon''), (Tue, ''tue''), (Wed, ''wed''),
                                     (Thu, ''thu''), (Fri, ''fri''), (Sat, ''sat'')]"
  shows "todaysSchedule r env =
           (case schedule r of
              None \<Rightarrow> []
            | Some sch \<Rightarrow> (case sch day of None \<Rightarrow> [] | Some ss \<Rightarrow> ss))"
proof -
  have "dayOfWeek (getDay env) = day"
    using assms by (cases "getDay env") auto
  then show ?thesis by (simp add: todaysSchedule_def split: option.split)
qed

lemma exClock_day:
  "(getDay (exClock Mon h m), ''mon'') \<in> set [(Sun, ''sun''), (Mon, ''mon''), (Tue, ''tue''),
      (Wed, ''wed''), (Thu, ''thu''), (Fri, ''fri''), (Sat, ''sat'')]"
  "(getDay (exClock Tue h m), ''tue'') \<in> set [(Sun, ''sun''), (Mon, ''mon''), (Tue, ''tue''),
      (Wed, ''wed''), (Thu, ''thu''), (Fri, ''fri''), (Sat, ''sat'')]"
  "(getDay (exClock Wed h m), ''wed'') \<in> set [(Sun, ''sun''), (Mon, ''mon''), (Tue, ''tue''),
      (Wed, ''wed''), (Thu, ''thu''), (Fri, ''fri''), (Sat, ''sat'')]"
  by (simp_all add: exClock_def)

text \<open>
  C1, as the code has it. Take a room in schedule mode with no entry in the boost store, a
  clock showing a weekday and a time of day \<open>h:m\<close>, the slots stored in the room's schedule
  under that weekday's name (none when the schedule or the day is absent), and \<open>t\<close> the
  time written \<^verbatim>\<open>HH:MM\<close>. Then the state the room's iteration computes for a radiator
  \<open>R\<close> is on exactly when the first of those slots, in stored order, that contains \<open>t\<close> in
  \<open>[start, end)\<close> has \<open>R\<close> among its enabled radiators; it is off otherwise. A later slot
  that contains the time too has no say. When \<open>R\<close> is a radiator of the room that no later
  room lists, that state is the tick's desired state for \<open>R\<close>.
\<close>

theorem schedule_mode_first_slot:
  assumes "controlMode r = ''schedule''" and "boosts (roomId r) = None"
    and "(getDay env, day) \<in> set [(Sun, ''sun''), (Mon, ''mon''), (Tue, ''tue''), (Wed, ''wed''),
                                    (Thu, ''thu''), (Fri, ''fri''), (Sat, ''sat'')]"
    and "slots = (case schedule r of
                    None \<Rightarrow> []
                  | Some sch \<Rightarrow> (case sch day of None \<Rightarrow> [] | Some ss \<Rightarrow> ss))"
    and "getHours env = h" and "getMinutes env = m" and "h < 24" and "m < 60"
    and "t = [''0123456789'' ! (h div 10), ''0123456789'' ! (h mod 10), CHR '':'',
              ''0123456789'' ! (m div 10), ''0123456789'' ! (m mod 10)]"
    and "desired =
           (if (\<exists>i < length slots. startTime (slots ! i) \<le> t \<and> t < endTime (slots ! i) \<and>
                  (\<forall>j < i. \<not> (startTime (slots ! j) \<le> t \<and> t < endTime (slots ! j))) \<and>
                  (\<exists>ids. enabledRadiatorIds (slots ! i) = Some ids \<and> R \<in> set ids))
            then StateOn else StateOff)"
  shows "roomDesired devices boosts lastState env r R = desired \<and>
         (R \<in> set (radiatorDeviceIds r) \<and>
          (\<forall>p \<in> set post. R \<notin> set (radiatorDeviceIds (fst p))) \<longrightarrow>
            map_of (computeCommands devices boosts lastState (pre @ (r, env) # post)) R =
              Some desired)"
proof -
  have sl: "slots = todaysSchedule r env"
    using assms(4) todaysSchedule_day[OF assms(3), of r] by simp
  have ti: "t = currentTime env"
    using assms(9) currentTime_clock[OF assms(5-8)] by simp
  have d: "roomDesired devices boosts lastState env r R = desired"
    using roomDesired_schedule[of r boosts, OF assms(1,2)]
      enabled_in_active_slot[of R t slots] sl ti assms(10)
    by simp
  have "map_of (computeCommands devices boosts lastState (pre @ (r, env) # post)) R = Some desired"
    if own: "R \<in> set (radiatorDeviceIds r)"
      and last: "\<forall>p \<in> set post. R \<notin> set (radiatorDeviceIds (fst p))"
    using map_of_computeCommands[OF own last] d by simp
  with d show ?thesis by blast
qed

theorem schedule_mode_first_slot_witness:
  "roomDesired exDevices Map.empty Map.empty (exClock Mon 10 30) exRoomWeek ''a'' = StateOn \<and>
   roomDesired exDevices Map.empty Map.empty (exClock Mon 10 30) exRoomWeek ''b'' = StateOff \<and>
   roomDesired exDevices Map.empty Map.empty (exClock Mon 18 5) exRoomWeek ''a'' = StateOff \<and>
   roomDesired exDevices Map.empty Map.empty (exClock Tue 10 30) exRoomWeek ''a'' = StateOff \<and>
   roomDesired exDevices Map.empty Map.empty (exClock Tue 10 30) exRoomWeek ''b'' = StateOn \<and>
   roomDesired exDevices Map.empty Map.empty (exClock Tue 12 0) exRoomWeek ''a'' = StateOn \<and>
   roomDesired exDevices Map.empty Map.empty (exClock Wed 10 30) exRoomWeek ''a'' = StateOff \<and>
   map_of (computeCommands exDevices Map.empty Map.empty
             ([] @ (exRoomWeek, exClock Tue 10 30) # [])) ''b'' = Some StateOn"
proof -
  have m: "controlMode exRoomWeek = ''schedule''"
    and rb: "''b'' \<in> set (radiatorDeviceIds exRoomWeek)"
    by (simp_all add: exRoomWeek_def)
  have nb: "(Map.empty :: boost_store) (roomId exRoomWeek) = None" by simp
  have pb: "\<forall>p \<in> set ([] :: (room \<times> room_env) list). ''b'' \<notin> set (radiatorDeviceIds (fst p))"
    by simp
  have mon: "[exSlotDay] = (case schedule exRoomWeek of
                    None \<Rightarrow> []
                  | Some sch \<Rightarrow> (case sch ''mon'' of None \<Rightarrow> [] | Some ss \<Rightarrow> ss))"
    and tue: "[exSlotLate, exSlotDay] = (case schedule exRoomWeek of
                    None \<Rightarrow> []
                  | Some sch \<Rightarrow> (case sch ''tue'' of None \<Rightarrow> [] | Some ss \<Rightarrow> ss))"
    and wed: "[] = (case schedule exRoomWeek of
                    None \<Rightarrow> []
                  | Some sch \<Rightarrow> (case sch ''wed'' of None \<Rightarrow> [] | Some ss \<Rightarrow> ss))"
    by (simp_all add: exRoomWeek_def)
  have hrs: "getHours (exClock d h m) = h" and mins: "getMinutes (exClock d h m) = m" for d h m
    by (simp_all add: exClock_def)
  have t1030: "''10:30'' = [''0123456789'' ! (10 div 10), ''0123456789'' ! (10 mod 10), CHR '':'',
                            ''0123456789'' ! (30 div 10), ''0123456789'' ! (30 mod 10)]"
    and t1805: "''18:05'' = [''0123456789'' ! (18 div 10), ''0123456789'' ! (18 mod 10), CHR '':'',
                            ''0123456789'' ! (5 div 10), ''0123456789'' ! (5 mod 10)]"
    and t1200: "''12:00'' = [''0123456789'' ! (12 div 10), ''0123456789'' ! (12 mod 10), CHR '':'',
                            ''0123456789'' ! (0 div 10), ''0123456789'' ! (0 mod 10)]"
    by simp_all
  have b10: "(10::nat) < 24" "(30::nat) < 60" and b18: "(18::nat) < 24" "(5::nat) < 60"
    and b12: "(12::nat) < 24" "(0::nat) < 60"
    by simp_all
  have ev: "''a'' \<in> set (enabledIdsInSlot (findActiveSlot ''10:30'' [exSlotDay]))"
    "''b'' \<notin> set (enabledIdsInSlot (findActiveSlot ''10:30'' [exSlotDay]))"
    "''a'' \<notin> set (enabledIdsInSlot (findActiveSlot ''18:05'' [exSlotDay]))"
    "''a'' \<notin> set (enabledIdsInSlot (findActiveSlot ''10:30'' [exSlotLate, exSlotDay]))"
    "''b'' \<in> set (enabledIdsInSlot (findActiveSlot ''10:30'' [exSlotLate, exSlotDay]))"
    "''a'' \<in> set (enabledIdsInSlot (findActiveSlot ''12:00'' [exSlotLate, exSlotDay]))"
    "''a'' \<notin> set (enabledIdsInSlot (findActiveSlot ''10:30'' []))"
    by (simp_all add: slotMatches_def enabledIdsInSlot_def exSlotDay_def exSlotLate_def)
  have 1: "roomDesired exDevices Map.empty Map.empty (exClock Mon 10 30) exRoomWeek ''a'' = StateOn"
    using schedule_mode_first_slot[where r = exRoomWeek and boosts = Map.empty
        and env = "exClock Mon 10 30" and day = "''mon''" and slots = "[exSlotDay]" and h = 10 and m = 30
        and t = "''10:30''" and R = "''a''" and devices = exDevices and lastState = Map.empty
        and pre = "[]" and post = "[]",
        OF m nb exClock_day(1) mon hrs mins b10 t1030 refl] ev(1)
    by (simp only: enabled_in_active_slot[symmetric] if_True)
  have 2: "roomDesired exDevices Map.empty Map.empty (exClock Mon 10 30) exRoomWeek ''b'' = StateOff"
    using schedule_mode_first_slot[where r = exRoomWeek and boosts = Map.empty
        and env = "exClock Mon 10 30" and day = "''mon''" and slots = "[exSlotDay]" and h = 10 and m = 30
        and t = "''10:30''" and R = "''b''" and devices = exDevices and lastState = Map.empty
        and pre = "[]" and post = "[]",
        OF m nb exClock_day(1) mon hrs mins b10 t1030 refl] ev(2)
    by (simp only: enabled_in_active_slot[symmetric] if_False)
  have 3: "roomDesired exDevices Map.empty Map.empty (exClock Mon 18 5) exRoomWeek ''a'' = StateOff"
    using schedule_mode_first_slot[where r = exRoomWeek and boosts = Map.empty
        and env = "exClock Mon 18 5" and day = "''mon''" and slots = "[exSlotDay]" and h = 18 and m = 5
        and t = "''18:05''" and R = "''a''" and devices = exDevices and lastState = Map.empty
        and pre = "[]" and post = "[]",
        OF m nb exClock_day(1) mon hrs mins b18 t1805 refl] ev(3)
    by (simp only: enabled_in_active_slot[symmetric] if_False)
  have 4: "roomDesired exDevices Map.empty Map.empty (exClock Tue 10 30) exRoomWeek ''a'' = StateOff"
    using schedule_mode_first_slot[where r = exRoomWeek and boosts = Map.empty
        and env = "exClock Tue 10 30" and day = "''tue''" and slots = "[exSlotLate, exSlotDay]" and h = 10 and m = 30
        and t = "''10:30''" and R = "''a''" and devices = exDevices and lastState = Map.empty
        and pre = "[]" and post = "[]",
        OF m nb exClock_day(2) tue hrs mins b10 t1030 refl] ev(4)
    by (simp only: enabled_in_active_slot[symmetric] if_False)
  have 5: "roomDesired exDevices Map.empty Map.empty (exClock Tue 10 30) exRoomWeek ''b'' = StateOn \<and>
           map_of (computeCommands exDevices Map.empty Map.empty
             ([] @ (exRoomWeek, exClock Tue 10 30) # [])) ''b'' = Some StateOn"
    using schedule_mode_first_slot[where r = exRoomWeek and boosts = Map.empty
        and env = "exClock Tue 10 30" and day = "''tue''" and slots = "[exSlotLate, exSlotDay]" and h = 10 and m = 30
        and t = "''10:30''" and R = "''b''" and devices = exDevices and lastState = Map.empty
        and pre = "[]" and post = "[]",
        OF m nb exClock_day(2) tue hrs mins b10 t1030 refl] ev(5) rb pb
    by (simp only: enabled_in_active_slot[symmetric] if_True)
  have 6: "roomDesired exDevices Map.empty Map.empty (exClock Tue 12 0) exRoomWeek ''a'' = StateOn"
    using schedule_mode_first_slot[where r = exRoomWeek and boosts = Map.empty
        and env = "exClock Tue 12 0" and day = "''tue''" and slots = "[exSlotLate, exSlotDay]" and h = 12 and m = 0
        and t = "''12:00''" and R = "''a''" and devices = exDevices and lastState = Map.empty
        and pre = "[]" and post = "[]",
        OF m nb exClock_day(2) tue hrs mins b12 t1200 refl] ev(6)
    by (simp only: enabled_in_active_slot[symmetric] if_True)
  have 7: "roomDesired exDevices Map.empty Map.empty (exClock Wed 10 30) exRoomWeek ''a'' = StateOff"
    using schedule_mode_first_slot[where r = exRoomWeek and boosts = Map.empty
        and env = "exClock Wed 10 30" and day = "''wed''" and slots = "[]" and h = 10 and m = 30
        and t = "''10:30''" and R = "''a''" and devices = exDevices and lastState = Map.empty
        and pre = "[]" and post = "[]",
        OF m nb exClock_day(3) wed hrs mins b10 t1030 refl] ev(7)
    by (simp only: enabled_in_active_slot[symmetric] if_False)
  from 1 2 3 4 5 6 7 show ?thesis by blast
qed

text \<open>
  C1 as worded ("some slot") fails where slots overlap: on Tuesday at 11:15 the second
  stored slot of the example room (09:00 to 17:00) contains the time and enables radiator
  \<open>a\<close>, yet the desired state of \<open>a\<close> is off, because the first stored slot (10:00 to
  12:00) contains the time too and does not enable it.
\<close>

theorem schedule_mode_some_slot_counterexample:
  "controlMode exRoomWeek = ''schedule'' \<and>
   (Map.empty :: boost_store) (roomId exRoomWeek) = None \<and>
   ''a'' \<in> set (radiatorDeviceIds exRoomWeek) \<and>
   todaysSchedule exRoomWeek (exClock Tue 11 15) = [exSlotLate, exSlotDay] \<and>
   currentTime (exClock Tue 11 15) = ''11:15'' \<and>
   startTime exSlotDay \<le> ''11:15'' \<and> ''11:15'' < endTime exSlotDay \<and>
   enabledRadiatorIds exSlotDay = Some [''a''] \<and>
   map_of (computeCommands exDevices Map.empty Map.empty [(exRoomWeek, exClock Tue 11 15)])
     ''a'' = Some StateOff"
proof -
  have m: "controlMode exRoomWeek = ''schedule''"
    and ra: "''a'' \<in> set (radiatorDeviceIds exRoomWeek)"
    by (simp_all add: exRoomWeek_def)
  have nb: "(Map.empty :: boost_store) (roomId exRoomWeek) = None" by simp
  have ts: "todaysSchedule exRoomWeek (exClock Tue 11 15) = [exSlotLate, exSlotDay]"
    by (simp add: todaysSchedule_def exRoomWeek_def exClock_def)
  have ct: "currentTime (exClock Tue 11 15) = ''11:15''"
    by (simp add: currentTime_def exClock_def hhmm_digits digitChar_def)
  have first: "slotMatches ''11:15'' exSlotLate"
    by (simp add: slotMatches_def exSlotLate_def)
  have en: "enabledIdsInSlot (Some exSlotLate) = [''b'']"
    by (simp add: enabledIdsInSlot_def exSlotLate_def)
  have "roomDesired exDevices Map.empty Map.empty (exClock Tue 11 15) exRoomWeek ''a'' = StateOff"
    using roomDesired_schedule[of exRoomWeek Map.empty, OF m nb]
    by (simp add: ct ts first en)
  then have "map_of (computeCommands exDevices Map.empty Map.empty
                       [(exRoomWeek, exClock Tue 11 15)]) ''a'' = Some StateOff"
    using ra by (simp add: computeCommands_def map_of_processRoom)
  moreover have "startTime exSlotDay \<le> ''11:15'' \<and> ''11:15'' < endTime exSlotDay \<and>
      enabledRadiatorIds exSlotDay = Some [''a'']"
    by (simp add: exSlotDay_def)
  ultimately show ?thesis using m nb ra ts ct by simp
qed

subsection \<open>Thermostat mode\<close>

lemma enabledIdsInSlot_mem:
  "R \<in> set (enabledIdsInSlot a) \<longleftrightarrow>
     (\<exists>s ids. a = Some s \<and> enabledRadiatorIds s = Some ids \<and> R \<in> set ids)"
proof (cases a)
  case None
  then show ?thesis by (simp add: enabledIdsInSlot_def)
next
  case (Some s)
  then show ?thesis by (cases "enabledRadiatorIds s") (simp_all add: enabledIdsInSlot_def)
qed

lemma isRadiatorBoosted_iff:
  "isRadiatorBoosted ab R \<longleftrightarrow> (\<exists>b. ab = Some b \<and> R \<in> set (radiatorIds b))"
  by (cases ab) (simp_all add: isRadiatorBoosted_def)

lemma heatingNeededByTemp_read:
  assumes "controlMode r = ''thermostat''"
    and "sensorDeviceId r = Some sid" and "sid \<noteq> []"
    and "findDeviceById devices sid = Some sensorDevice"
    and "btSensorId sensorDevice = Some bt"
    and "sensorGet env (ip sensorDevice) bt = SensorData (Some currentTemp)"
  shows "heatingNeededByTemp devices ls env r a = decideByTemp ls r a currentTemp"
  using assms by (simp add: heatingNeededByTemp_def)

lemma roomDesired_thermostat:
  assumes "controlMode r = ''thermostat''" and "\<not> isRadiatorBoosted (bs (roomId r)) R"
  shows "roomDesired devices bs ls env r R =
           (if R \<in> set (enabledIdsInSlot (findActiveSlot (currentTime env) (todaysSchedule r env))) \<and>
               heatingNeededByTemp devices ls env r
                 (findActiveSlot (currentTime env) (todaysSchedule r env))
            then StateOn else StateOff)"
  using assms by (simp add: roomDesired_def desiredRadiatorState_def Let_def)

text \<open>
  C2. Take a room in thermostat mode whose sensor read succeeds: its sensor id is set, the
  device exists and bears a sensor, and the request answers with a temperature. The
  effective target is the active slot's own target when there is an active slot and it has
  one, else the room's target. Then heating-needed is true when the temperature is strictly
  below target minus hysteresis; it is false when the temperature is strictly above target
  plus hysteresis (the hysteresis being non-negative, as the data model has it); inside the
  closed band it equals whether some radiator of the room was last commanded on. And for a
  radiator \<open>R\<close> that no boost of the room covers, the state the room's iteration computes
  is on exactly when \<open>R\<close> is in the active slot's enabled set and heating is needed, off
  otherwise; when \<open>R\<close> is a radiator of the room that no later room lists, that state is
  the tick's desired state for \<open>R\<close>.
\<close>

theorem thermostat_mode_decision:
  assumes "controlMode r = ''thermostat''"
    and "sensorDeviceId r = Some sid" and "sid \<noteq> []"
    and "findDeviceById devices sid = Some sensorDevice"
    and "btSensorId sensorDevice = Some bt"
    and "sensorGet env (ip sensorDevice) bt = SensorData (Some currentTemp)"
    and "activeSlot = findActiveSlot (currentTime env) (todaysSchedule r env)"
    and "target = (case activeSlot of
                     None \<Rightarrow> targetTempC r
                   | Some s \<Rightarrow> (case slotTargetTempC s of None \<Rightarrow> targetTempC r | Some x \<Rightarrow> x))"
    and "needed = heatingNeededByTemp devices lastState env r activeSlot"
    and "desired =
           (if (\<exists>s ids. activeSlot = Some s \<and> enabledRadiatorIds s = Some ids \<and> R \<in> set ids) \<and>
               needed
            then StateOn else StateOff)"
  shows "(currentTemp < target - hysteresisC r \<longrightarrow> needed) \<and>
         (0 \<le> hysteresisC r \<and> target + hysteresisC r < currentTemp \<longrightarrow> \<not> needed) \<and>
         (target - hysteresisC r \<le> currentTemp \<and> currentTemp \<le> target + hysteresisC r \<longrightarrow>
            needed = (\<exists>i \<in> set (radiatorDeviceIds r). lastState i = Some StateOn)) \<and>
         ((\<forall>b. boosts (roomId r) = Some b \<longrightarrow> R \<notin> set (radiatorIds b)) \<longrightarrow>
            roomDesired devices boosts lastState env r R = desired \<and>
            (R \<in> set (radiatorDeviceIds r) \<and>
             (\<forall>p \<in> set post. R \<notin> set (radiatorDeviceIds (fst p))) \<longrightarrow>
               map_of (computeCommands devices boosts lastState (pre @ (r, env) # post)) R =
                 Some desired))"
proof -
  have t: "target = targetTemp r activeSlot"
    using assms(8) by (simp add: targetTemp_def)
  have n: "needed = decideByTemp lastState r activeSlot currentTemp"
    using assms(9) heatingNeededByTemp_read[OF assms(1-6)] by simp
  have c1: "currentTemp < target - hysteresisC r \<longrightarrow> needed"
    by (simp add: n t decideByTemp_def)
  have c2: "0 \<le> hysteresisC r \<and> target + hysteresisC r < currentTemp \<longrightarrow> \<not> needed"
    by (auto simp: n t decideByTemp_def)
  have c3: "target - hysteresisC r \<le> currentTemp \<and> currentTemp \<le> target + hysteresisC r \<longrightarrow>
      needed = (\<exists>i \<in> set (radiatorDeviceIds r). lastState i = Some StateOn)"
    by (auto simp: n t decideByTemp_def lastAnyRadOn_def)
  have c4: "(\<forall>b. boosts (roomId r) = Some b \<longrightarrow> R \<notin> set (radiatorIds b)) \<longrightarrow>
            roomDesired devices boosts lastState env r R = desired \<and>
            (R \<in> set (radiatorDeviceIds r) \<and>
             (\<forall>p \<in> set post. R \<notin> set (radiatorDeviceIds (fst p))) \<longrightarrow>
               map_of (computeCommands devices boosts lastState (pre @ (r, env) # post)) R =
                 Some desired)"
  proof
    assume "\<forall>b. boosts (roomId r) = Some b \<longrightarrow> R \<notin> set (radiatorIds b)"
    then have nb: "\<not> isRadiatorBoosted (boosts (roomId r)) R"
      by (simp add: isRadiatorBoosted_iff)
    have d: "roomDesired devices boosts lastState env r R = desired"
      using roomDesired_thermostat[of r boosts R, OF assms(1) nb, of devices lastState env]
        enabledIdsInSlot_mem[of R activeSlot] assms(7,9,10)
      by simp
    have "map_of (computeCommands devices boosts lastState (pre @ (r, env) # post)) R = Some desired"
      if own: "R \<in> set (radiatorDeviceIds r)"
        and last: "\<forall>p \<in> set post. R \<notin> set (radiatorDeviceIds (fst p))"
      using map_of_computeCommands[OF own last] d by simp
    with d show "roomDesired devices boosts lastState env r R = desired \<and>
            (R \<in> set (radiatorDeviceIds r) \<and>
             (\<forall>p \<in> set post. R \<notin> set (radiatorDeviceIds (fst p))) \<longrightarrow>
               map_of (computeCommands devices boosts lastState (pre @ (r, env) # post)) R =
                 Some desired)"
      by blast
  qed
  from c1 c2 c3 c4 show ?thesis by blast
qed

lemma findDeviceById_exDevices:
  "findDeviceById exDevices ''a'' = Some exRadiatorA"
  "findDeviceById exDevices ''b'' = Some exRadiatorB"
  "findDeviceById exDevices ''s'' = Some exSensorDevice"
  by (simp_all add: exDevices_def exRadiatorA_def exRadiatorB_def exSensorDevice_def)

lemma activeSlot_exRoomThermostat:
  "findActiveSlot (currentTime (exEnv answer)) (todaysSchedule exRoomThermostat (exEnv answer)) =
     Some exSlotDay"
  by (simp add: currentTime_exEnv todaysSchedule_exRoomThermostat slotMatches_exSlotDay)

theorem thermostat_mode_decision_witness:
  "heatingNeededByTemp exDevices Map.empty (exEnv (SensorData (Some 18.5))) exRoomThermostat
     (Some exSlotDay) \<and>
   map_of (computeCommands exDevices Map.empty Map.empty
             ([] @ (exRoomThermostat, exEnv (SensorData (Some 18.5))) # [])) ''a'' = Some StateOn \<and>
   \<not> heatingNeededByTemp exDevices Map.empty (exEnv (SensorData (Some 21.5))) exRoomThermostat
       (Some exSlotDay) \<and>
   \<not> heatingNeededByTemp exDevices Map.empty (exEnv (SensorData (Some 20))) exRoomThermostat
       (Some exSlotDay)"
proof -
  have m: "controlMode exRoomThermostat = ''thermostat''"
    and sd: "sensorDeviceId exRoomThermostat = Some ''s''"
    and hy: "hysteresisC exRoomThermostat = 1"
    and ra: "''a'' \<in> set (radiatorDeviceIds exRoomThermostat)"
    by (simp_all add: exRoomThermostat_def)
  have ne: "''s'' \<noteq> []" by simp
  have bt: "btSensorId exSensorDevice = Some 200"
    by (simp add: exSensorDevice_def)
  have sg: "sensorGet (exEnv answer) (ip exSensorDevice) 200 = answer" for answer
    by (simp add: exEnv_def)
  have tg: "(20::real) = (case Some exSlotDay of
                     None \<Rightarrow> targetTempC exRoomThermostat
                   | Some s \<Rightarrow> (case slotTargetTempC s of
                                None \<Rightarrow> targetTempC exRoomThermostat | Some x \<Rightarrow> x))"
    by (simp add: exSlotDay_def exRoomThermostat_def)
  have en: "\<exists>s ids. Some exSlotDay = Some s \<and> enabledRadiatorIds s = Some ids \<and> ''a'' \<in> set ids"
    by (simp add: exSlotDay_def)
  have own: "\<forall>p \<in> set ([] :: (room \<times> room_env) list). ''a'' \<notin> set (radiatorDeviceIds (fst p))"
    by simp
  have nob: "\<forall>b. (Map.empty :: boost_store) (roomId exRoomThermostat) = Some b \<longrightarrow>
               ''a'' \<notin> set (radiatorIds b)"
    by simp
  have nolast: "\<not> (\<exists>i \<in> set (radiatorDeviceIds exRoomThermostat).
                    (Map.empty :: string \<rightharpoonup> radiator_state) i = Some StateOn)"
    by simp
  note th = thermostat_mode_decision[OF m sd ne findDeviceById_exDevices(3) bt sg
      activeSlot_exRoomThermostat[symmetric] tg refl refl,
      where lastState = Map.empty and R = "''a''" and post = "[]" and boosts = Map.empty
        and pre = "[]"]
  have cold: "heatingNeededByTemp exDevices Map.empty (exEnv (SensorData (Some 18.5)))
                exRoomThermostat (Some exSlotDay)"
    using th[where currentTemp = "18.5"] hy by simp
  have cmd: "map_of (computeCommands exDevices Map.empty Map.empty
             ([] @ (exRoomThermostat, exEnv (SensorData (Some 18.5))) # [])) ''a'' = Some StateOn"
    using th[where currentTemp = "18.5"] ra own nob en cold by simp
  have hot: "\<not> heatingNeededByTemp exDevices Map.empty (exEnv (SensorData (Some 21.5)))
                exRoomThermostat (Some exSlotDay)"
    using th[where currentTemp = "21.5"] hy by simp
  have band: "\<not> heatingNeededByTemp exDevices Map.empty (exEnv (SensorData (Some 20)))
                exRoomThermostat (Some exSlotDay)"
    using th[where currentTemp = "20"] hy nolast by simp
  from cold cmd hot band show ?thesis by blast
qed

lemma computeCommands_defined:
  "map_of (computeCommands devices bs ls rooms) R \<noteq> None \<longleftrightarrow>
     (\<exists>p \<in> set rooms. R \<in> set (radiatorDeviceIds (fst p)))"
proof -
  have "map_of (fold (\<lambda>(r, env) c. processRoom devices bs ls env r c) rooms cmds) R \<noteq> None \<longleftrightarrow>
          map_of cmds R \<noteq> None \<or> (\<exists>p \<in> set rooms. R \<in> set (radiatorDeviceIds (fst p)))" for cmds
    by (induction rooms arbitrary: cmds) (auto simp: map_of_processRoom)
  then show ?thesis by (simp add: computeCommands_def)
qed

lemma heatingNeededByTemp_fail:
  assumes "sensorDeviceId r = None \<or> sensorDeviceId r = Some [] \<or>
           (\<exists>sid. sensorDeviceId r = Some sid \<and>
              (findDeviceById devices sid = None \<or>
               (\<exists>sd. findDeviceById devices sid = Some sd \<and>
                  (btSensorId sd = None \<or>
                   (\<exists>bt. btSensorId sd = Some bt \<and>
                      (sensorGet env (ip sd) bt = SensorError \<or>
                       sensorGet env (ip sd) bt = SensorData None))))))"
  shows "\<not> heatingNeededByTemp devices ls env r a"
  using assms by (auto simp: heatingNeededByTemp_def)

text \<open>
  C7. Thermostat fail-safe. Take a room in thermostat mode whose temperature cannot be
  read: no sensor id (absent or empty), or the sensor device is not in the registry or
  bears no sensor, or the request throws, or its answer has no value. Then heating-needed
  is false for the tick; the room's radiators are processed all the same, the state
  computed for a radiator being on when a boost of the room covers it and off otherwise
  (and that state is the tick's desired state for each radiator of the room that no later
  room lists); and the tick goes on: every radiator of every room of the registry, before
  or after this room, gets a desired state.
\<close>

theorem thermostat_fail_safe:
  assumes "controlMode r = ''thermostat''"
    and "sensorDeviceId r = None \<or> sensorDeviceId r = Some [] \<or>
         (\<exists>sid. sensorDeviceId r = Some sid \<and>
            (findDeviceById devices sid = None \<or>
             (\<exists>sd. findDeviceById devices sid = Some sd \<and>
                (btSensorId sd = None \<or>
                 (\<exists>bt. btSensorId sd = Some bt \<and>
                    (sensorGet env (ip sd) bt = SensorError \<or>
                     sensorGet env (ip sd) bt = SensorData None))))))"
  shows "\<not> heatingNeededByTemp devices lastState env r
             (findActiveSlot (currentTime env) (todaysSchedule r env)) \<and>
         (\<forall>R. roomDesired devices boosts lastState env r R =
                (if (\<exists>b. boosts (roomId r) = Some b \<and> R \<in> set (radiatorIds b))
                 then StateOn else StateOff)) \<and>
         (\<forall>R \<in> set (radiatorDeviceIds r).
            (\<forall>p \<in> set post. R \<notin> set (radiatorDeviceIds (fst p))) \<longrightarrow>
            map_of (computeCommands devices boosts lastState (pre @ (r, env) # post)) R =
              Some (if (\<exists>b. boosts (roomId r) = Some b \<and> R \<in> set (radiatorIds b))
                    then StateOn else StateOff)) \<and>
         (\<forall>p \<in> set (pre @ (r, env) # post). \<forall>R \<in> set (radiatorDeviceIds (fst p)).
            map_of (computeCommands devices boosts lastState (pre @ (r, env) # post)) R \<noteq> None)"
proof (intro conjI ballI impI allI)
  let ?a = "findActiveSlot (currentTime env) (todaysSchedule r env)"
  show nn: "\<not> heatingNeededByTemp devices lastState env r ?a"
    by (rule heatingNeededByTemp_fail[OF assms(2)])
  show d: "roomDesired devices boosts lastState env r R =
            (if (\<exists>b. boosts (roomId r) = Some b \<and> R \<in> set (radiatorIds b))
             then StateOn else StateOff)" for R
    using assms(1) nn
    by (simp add: roomDesired_def desiredRadiatorState_def Let_def isRadiatorBoosted_iff)
  {
    fix R
    assume own: "R \<in> set (radiatorDeviceIds r)"
      and last: "\<forall>p \<in> set post. R \<notin> set (radiatorDeviceIds (fst p))"
    show "map_of (computeCommands devices boosts lastState (pre @ (r, env) # post)) R =
              Some (if (\<exists>b. boosts (roomId r) = Some b \<and> R \<in> set (radiatorIds b))
                    then StateOn else StateOff)"
      using map_of_computeCommands[OF own last, of devices boosts lastState pre env] d[of R]
      by simp
  }
  {
    fix p R
    assume "p \<in> set (pre @ (r, env) # post)" and "R \<in> set (radiatorDeviceIds (fst p))"
    then show "map_of (computeCommands devices boosts lastState (pre @ (r, env) # post)) R \<noteq> None"
      using computeCommands_defined[of devices boosts lastState "pre @ (r, env) # post" R]
      by blast
  }
qed

theorem thermostat_fail_safe_witness:
  "\<not> heatingNeededByTemp exDevices Map.empty (exEnv SensorError) exRoomThermostat
       (findActiveSlot (currentTime (exEnv SensorError))
          (todaysSchedule exRoomThermostat (exEnv SensorError))) \<and>
   map_of (computeCommands exDevices (Map.empty(''r2'' \<mapsto> \<lparr>until = ValidDate 1000, radiatorIds = [''b'']\<rparr>))
             Map.empty ([] @ (exRoomThermostat, exEnv SensorError) # [])) ''a'' = Some StateOff \<and>
   map_of (computeCommands exDevices (Map.empty(''r2'' \<mapsto> \<lparr>until = ValidDate 1000, radiatorIds = [''b'']\<rparr>))
             Map.empty ([] @ (exRoomThermostat, exEnv SensorError) # [])) ''b'' = Some StateOn"
proof -
  let ?bs = "Map.empty(''r2'' \<mapsto> \<lparr>until = ValidDate 1000, radiatorIds = [''b'']\<rparr>) :: boost_store"
  have m: "controlMode exRoomThermostat = ''thermostat''"
    and sd: "sensorDeviceId exRoomThermostat = Some ''s''"
    and rs: "radiatorDeviceIds exRoomThermostat = [''a'', ''b'']"
    and ri: "roomId exRoomThermostat = ''r2''"
    by (simp_all add: exRoomThermostat_def)
  have bt: "btSensorId exSensorDevice = Some 200"
    by (simp add: exSensorDevice_def)
  have sg: "sensorGet (exEnv SensorError) (ip exSensorDevice) 200 = SensorError"
    by (simp add: exEnv_def)
  have fail: "sensorDeviceId exRoomThermostat = None \<or> sensorDeviceId exRoomThermostat = Some [] \<or>
         (\<exists>sid. sensorDeviceId exRoomThermostat = Some sid \<and>
            (findDeviceById exDevices sid = None \<or>
             (\<exists>sd. findDeviceById exDevices sid = Some sd \<and>
                (btSensorId sd = None \<or>
                 (\<exists>bt. btSensorId sd = Some bt \<and>
                    (sensorGet (exEnv SensorError) (ip sd) bt = SensorError \<or>
                     sensorGet (exEnv SensorError) (ip sd) bt = SensorData None))))))"
    using sd findDeviceById_exDevices(3) bt sg by simp
  note th = thermostat_fail_safe[OF m fail, where lastState = Map.empty and post = "[]"
      and boosts = ?bs and pre = "[]"]
  from th have n: "\<not> heatingNeededByTemp exDevices Map.empty (exEnv SensorError) exRoomThermostat
       (findActiveSlot (currentTime (exEnv SensorError))
          (todaysSchedule exRoomThermostat (exEnv SensorError)))"
    by blast
  from th have a: "map_of (computeCommands exDevices ?bs Map.empty
             ([] @ (exRoomThermostat, exEnv SensorError) # [])) ''a'' = Some StateOff"
    by (simp add: rs ri)
  from th have b: "map_of (computeCommands exDevices ?bs Map.empty
             ([] @ (exRoomThermostat, exEnv SensorError) # [])) ''b'' = Some StateOn"
    by (simp add: rs ri)
  from n a b show ?thesis by blast
qed

subsection \<open>Dispatch\<close>

text \<open>The device found for an id bears that id, so requests are told apart by device.\<close>

lemma findDeviceById_id: "findDeviceById devices i = Some dev \<Longrightarrow> deviceId dev = i"
  by (induction devices) (auto split: if_splits)

text \<open>An iteration for one device leaves what concerns another device as it was.\<close>

lemma applyCommand_other:
  assumes "fst cmd \<noteq> d"
  shows "lastCommandedRadiatorState (applyCommand devices setRelay cmd st) d =
           lastCommandedRadiatorState st d"
    and "filter (\<lambda>c. fst c = d) (relayCalls (applyCommand devices setRelay cmd st)) =
           filter (\<lambda>c. fst c = d) (relayCalls st)"
    and "e \<in> {DeviceNotFound d, SetRelayFailed d s} \<Longrightarrow>
           e \<in> set (errorLog (applyCommand devices setRelay cmd st)) \<longleftrightarrow> e \<in> set (errorLog st)"
  using assms by (auto simp: applyCommand_def Let_def split: option.splits)

lemma applyCommands_other:
  assumes "d \<notin> fst ` set cmds"
  shows "lastCommandedRadiatorState (applyCommands devices setRelay cmds st) d =
           lastCommandedRadiatorState st d"
    and "filter (\<lambda>c. fst c = d) (relayCalls (applyCommands devices setRelay cmds st)) =
           filter (\<lambda>c. fst c = d) (relayCalls st)"
    and "e \<in> {DeviceNotFound d, SetRelayFailed d s} \<Longrightarrow>
           e \<in> set (errorLog (applyCommands devices setRelay cmds st)) \<longleftrightarrow> e \<in> set (errorLog st)"
  using assms unfolding applyCommands_def
proof (induction cmds arbitrary: st)
  case Nil
  {
    case 1 show ?case by simp
  next
    case 2 show ?case by simp
  next
    case 3 show ?case by simp
  }
next
  case (Cons c cmds)
  {
    case 1
    then have "fst c \<noteq> d" and "d \<notin> fst ` set cmds" by auto
    then show ?case using Cons.IH(1)[of "applyCommand devices setRelay c st"]
      by (simp add: applyCommand_other(1))
  next
    case 2
    then have "fst c \<noteq> d" and "d \<notin> fst ` set cmds" by auto
    then show ?case using Cons.IH(2)[of "applyCommand devices setRelay c st"]
      by (simp add: applyCommand_other(2))
  next
    case 3
    then have "fst c \<noteq> d" and "d \<notin> fst ` set cmds" by auto
    then show ?case using Cons.IH(3)[of "applyCommand devices setRelay c st"] 3(1)
      applyCommand_other(3)[of c d e s devices setRelay st]
      by simp
  }
qed

lemma applyCommand_found:
  assumes "findDeviceById devices d = Some dev"
  shows "lastCommandedRadiatorState (applyCommand devices setRelay (d, s) st) d =
           (if lastCommandedRadiatorState st d \<noteq> Some s \<and> setRelay dev (s = StateOn)
            then Some s else lastCommandedRadiatorState st d)"
    and "relayCalls (applyCommand devices setRelay (d, s) st) =
           relayCalls st @ (if lastCommandedRadiatorState st d \<noteq> Some s then [(d, s)] else [])"
    and "errorLog (applyCommand devices setRelay (d, s) st) =
           errorLog st @ (if lastCommandedRadiatorState st d \<noteq> Some s \<and> \<not> setRelay dev (s = StateOn)
                          then [SetRelayFailed d s] else [])"
  using assms by (simp_all add: applyCommand_def)

lemma applyCommand_missing:
  assumes "findDeviceById devices d = None"
  shows "applyCommand devices setRelay (d, s) st = st\<lparr>errorLog := errorLog st @ [DeviceNotFound d]\<rparr>"
  using assms by (simp add: applyCommand_def)

lemma applyCommands_split:
  assumes "distinct (map fst cmds)" and "(d, s) \<in> set cmds"
  obtains xs ys where "cmds = xs @ (d, s) # ys" and "d \<notin> fst ` set xs" and "d \<notin> fst ` set ys"
proof -
  from assms(2) obtain xs ys where c: "cmds = xs @ (d, s) # ys"
    by (meson split_list)
  with assms(1) have "d \<notin> fst ` set xs" and "d \<notin> fst ` set ys" by auto
  with c that show thesis by blast
qed

lemma applyCommands_append:
  "applyCommands devices setRelay (xs @ c # ys) st =
     applyCommands devices setRelay ys
       (applyCommand devices setRelay c (applyCommands devices setRelay xs st))"
  by (simp add: applyCommands_def)

text \<open>
  What the dispatch loop does for a device whose command is queued and which is in the
  registry: one request if the desired state differs from the cached one and none
  otherwise, and the cache entry follows the request's success.
\<close>

lemma applyCommands_found:
  assumes "distinct (map fst cmds)" and "(d, s) \<in> set cmds"
    and "findDeviceById devices d = Some dev"
  shows "lastCommandedRadiatorState (applyCommands devices setRelay cmds st) d =
           (if lastCommandedRadiatorState st d \<noteq> Some s \<and> setRelay dev (s = StateOn)
            then Some s else lastCommandedRadiatorState st d)"
    and "filter (\<lambda>c. fst c = d) (relayCalls (applyCommands devices setRelay cmds st)) =
           filter (\<lambda>c. fst c = d) (relayCalls st) @
           (if lastCommandedRadiatorState st d \<noteq> Some s then [(d, s)] else [])"
    and "SetRelayFailed d s \<in> set (errorLog (applyCommands devices setRelay cmds st)) \<longleftrightarrow>
           SetRelayFailed d s \<in> set (errorLog st) \<or>
           (lastCommandedRadiatorState st d \<noteq> Some s \<and> \<not> setRelay dev (s = StateOn))"
proof -
  from assms(1,2) obtain xs ys where c: "cmds = xs @ (d, s) # ys"
    and xs: "d \<notin> fst ` set xs" and ys: "d \<notin> fst ` set ys"
    by (rule applyCommands_split)
  let ?st1 = "applyCommands devices setRelay xs st"
  let ?st2 = "applyCommand devices setRelay (d, s) ?st1"
  have l1: "lastCommandedRadiatorState ?st1 d = lastCommandedRadiatorState st d"
    by (rule applyCommands_other(1)[OF xs])
  have f1: "filter (\<lambda>c. fst c = d) (relayCalls ?st1) = filter (\<lambda>c. fst c = d) (relayCalls st)"
    by (rule applyCommands_other(2)[OF xs])
  have e1: "SetRelayFailed d s \<in> set (errorLog ?st1) \<longleftrightarrow> SetRelayFailed d s \<in> set (errorLog st)"
    by (rule applyCommands_other(3)[OF xs]) simp
  show "lastCommandedRadiatorState (applyCommands devices setRelay cmds st) d =
           (if lastCommandedRadiatorState st d \<noteq> Some s \<and> setRelay dev (s = StateOn)
            then Some s else lastCommandedRadiatorState st d)"
    unfolding c applyCommands_append
    by (simp add: applyCommands_other(1)[OF ys] applyCommand_found(1)[OF assms(3)] l1)
  show "filter (\<lambda>c. fst c = d) (relayCalls (applyCommands devices setRelay cmds st)) =
           filter (\<lambda>c. fst c = d) (relayCalls st) @
           (if lastCommandedRadiatorState st d \<noteq> Some s then [(d, s)] else [])"
    unfolding c applyCommands_append
    by (simp add: applyCommands_other(2)[OF ys] applyCommand_found(2)[OF assms(3)] l1 f1)
  have "SetRelayFailed d s \<in> set (errorLog (applyCommands devices setRelay cmds st)) \<longleftrightarrow>
          SetRelayFailed d s \<in> set (errorLog ?st2)"
    unfolding c applyCommands_append by (rule applyCommands_other(3)[OF ys]) simp
  also have "\<dots> \<longleftrightarrow> SetRelayFailed d s \<in> set (errorLog st) \<or>
           (lastCommandedRadiatorState st d \<noteq> Some s \<and> \<not> setRelay dev (s = StateOn))"
    by (simp add: applyCommand_found(3)[OF assms(3)] l1 e1)
  finally show "SetRelayFailed d s \<in> set (errorLog (applyCommands devices setRelay cmds st)) \<longleftrightarrow>
           SetRelayFailed d s \<in> set (errorLog st) \<or>
           (lastCommandedRadiatorState st d \<noteq> Some s \<and> \<not> setRelay dev (s = StateOn))" .
qed

text \<open>And for a device whose command is queued and which is not in the registry.\<close>

lemma applyCommands_missing:
  assumes "distinct (map fst cmds)" and "(d, s) \<in> set cmds"
    and "findDeviceById devices d = None"
  shows "lastCommandedRadiatorState (applyCommands devices setRelay cmds st) d =
           lastCommandedRadiatorState st d"
    and "filter (\<lambda>c. fst c = d) (relayCalls (applyCommands devices setRelay cmds st)) =
           filter (\<lambda>c. fst c = d) (relayCalls st)"
    and "DeviceNotFound d \<in> set (errorLog (applyCommands devices setRelay cmds st))"
proof -
  from assms(1,2) obtain xs ys where c: "cmds = xs @ (d, s) # ys"
    and xs: "d \<notin> fst ` set xs" and ys: "d \<notin> fst ` set ys"
    by (rule applyCommands_split)
  let ?st1 = "applyCommands devices setRelay xs st"
  let ?st2 = "applyCommand devices setRelay (d, s) ?st1"
  show "lastCommandedRadiatorState (applyCommands devices setRelay cmds st) d =
           lastCommandedRadiatorState st d"
    unfolding c applyCommands_append
    by (simp add: applyCommands_other(1)[OF ys] applyCommands_other(1)[OF xs]
        applyCommand_missing[OF assms(3)])
  show "filter (\<lambda>c. fst c = d) (relayCalls (applyCommands devices setRelay cmds st)) =
           filter (\<lambda>c. fst c = d) (relayCalls st)"
    unfolding c applyCommands_append
    by (simp add: applyCommands_other(2)[OF ys] applyCommands_other(2)[OF xs]
        applyCommand_missing[OF assms(3)])
  have "DeviceNotFound d \<in> set (errorLog (applyCommands devices setRelay cmds st)) \<longleftrightarrow>
          DeviceNotFound d \<in> set (errorLog ?st2)"
    unfolding c applyCommands_append by (rule applyCommands_other(3)[OF ys]) simp
  then show "DeviceNotFound d \<in> set (errorLog (applyCommands devices setRelay cmds st))"
    by (simp add: applyCommand_missing[OF assms(3)])
qed

lemma tick_components:
  assumes "heatingControlLoop devices rooms now setRelay activeBoosts lastState = (boosts', cmds, st)"
  shows "boosts' = pruneBoosts now activeBoosts"
    and "cmds = computeCommands devices boosts' lastState rooms"
    and "st = applyCommands devices setRelay cmds
                \<lparr>lastCommandedRadiatorState = lastState, relayCalls = [], errorLog = []\<rparr>"
  using assms by (auto simp: heatingControlLoop_def Let_def)

text \<open>
  C4, as the code has it. In a tick, for every device that has a computed desired state
  and is in the device registry: a set-relay request is made if and only if the desired
  state differs from the cached last commanded state (no cache entry counting as
  different), and then exactly one, for the desired state; the cache entry becomes the
  desired state exactly when a request is made and succeeds, and is unchanged otherwise; a
  failed request is logged and not retried in the tick.
\<close>

theorem dispatch_contract:
  assumes "heatingControlLoop devices rooms now setRelay activeBoosts lastState = (boosts', cmds, st)"
    and "map_of cmds d = Some desired"
    and "findDeviceById devices d = Some dev"
  shows "filter (\<lambda>c. fst c = d) (relayCalls st) =
           (if lastState d \<noteq> Some desired then [(d, desired)] else []) \<and>
         lastCommandedRadiatorState st d =
           (if lastState d \<noteq> Some desired \<and> setRelay dev (desired = StateOn)
            then Some desired else lastState d) \<and>
         (SetRelayFailed d desired \<in> set (errorLog st) \<longleftrightarrow>
            lastState d \<noteq> Some desired \<and> \<not> setRelay dev (desired = StateOn))"
proof -
  note t = tick_components[OF assms(1)]
  have dist: "distinct (map fst cmds)"
    unfolding t(2) by (rule distinct_computeCommands)
  have mem: "(d, desired) \<in> set cmds"
    using assms(2) by (rule map_of_SomeD)
  show ?thesis
    unfolding t(3)
    by (simp add: applyCommands_found[OF dist mem assms(3)])
qed

theorem dispatch_contract_witness:
  "filter (\<lambda>c. fst c = ''a'')
     (relayCalls (snd (snd (heatingControlLoop exDevices [(exRoomSchedule, exEnv SensorError)] 0
        (\<lambda>dev turnOn. False) Map.empty Map.empty)))) = [(''a'', StateOn)] \<and>
   lastCommandedRadiatorState (snd (snd (heatingControlLoop exDevices
        [(exRoomSchedule, exEnv SensorError)] 0 (\<lambda>dev turnOn. False) Map.empty Map.empty))) ''a''
     = None \<and>
   filter (\<lambda>c. fst c = ''b'')
     (relayCalls (snd (snd (heatingControlLoop exDevices [(exRoomSchedule, exEnv SensorError)] 0
        (\<lambda>dev turnOn. True) Map.empty (Map.empty(''b'' \<mapsto> StateOff)))))) = [] \<and>
   lastCommandedRadiatorState (snd (snd (heatingControlLoop exDevices
        [(exRoomSchedule, exEnv SensorError)] 0 (\<lambda>dev turnOn. True) Map.empty Map.empty))) ''a''
     = Some StateOn"
proof -
  let ?rooms = "[(exRoomSchedule, exEnv SensorError)]"
  have cmds: "computeCommands exDevices bs ls ?rooms =
      [(''a'', roomDesired exDevices bs ls (exEnv SensorError) exRoomSchedule ''a''),
       (''b'', roomDesired exDevices bs ls (exEnv SensorError) exRoomSchedule ''b'')]" for bs ls
    by (simp add: computeCommands_def processRoom_def exRoomSchedule_def)
  have m: "controlMode exRoomSchedule = ''schedule''"
    by (simp add: exRoomSchedule_def)
  have en: "enabledIdsInSlot (Some exSlotDay) = [''a'']"
    by (simp add: enabledIdsInSlot_def exSlotDay_def)
  have des: "roomDesired exDevices (pruneBoosts 0 Map.empty) ls (exEnv SensorError) exRoomSchedule R =
      (if R = ''a'' then StateOn else StateOff)" for ls R
    using roomDesired_schedule[of exRoomSchedule "pruneBoosts 0 Map.empty", OF m]
    by (simp add: pruneBoosts_def currentTime_exEnv todaysSchedule_exRoomSchedule
        slotMatches_exSlotDay en)
  have tick: "heatingControlLoop exDevices ?rooms 0 sr Map.empty ls =
      (pruneBoosts 0 Map.empty, [(''a'', StateOn), (''b'', StateOff)],
       snd (snd (heatingControlLoop exDevices ?rooms 0 sr Map.empty ls)))" for sr ls
    by (simp add: heatingControlLoop_def Let_def cmds des)
  have a: "map_of [(''a'', StateOn), (''b'', StateOff)] ''a'' = Some StateOn"
    and b: "map_of [(''a'', StateOn), (''b'', StateOff)] ''b'' = Some StateOff"
    by simp_all
  from dispatch_contract[OF tick a findDeviceById_exDevices(1), of "\<lambda>dev turnOn. False" Map.empty]
  have 1: "filter (\<lambda>c. fst c = ''a'')
     (relayCalls (snd (snd (heatingControlLoop exDevices ?rooms 0
        (\<lambda>dev turnOn. False) Map.empty Map.empty)))) = [(''a'', StateOn)] \<and>
   lastCommandedRadiatorState (snd (snd (heatingControlLoop exDevices
        ?rooms 0 (\<lambda>dev turnOn. False) Map.empty Map.empty))) ''a'' = None"
    by simp
  from dispatch_contract[OF tick b findDeviceById_exDevices(2), of "\<lambda>dev turnOn. True"
      "Map.empty(''b'' \<mapsto> StateOff)"]
  have 2: "filter (\<lambda>c. fst c = ''b'')
     (relayCalls (snd (snd (heatingControlLoop exDevices ?rooms 0
        (\<lambda>dev turnOn. True) Map.empty (Map.empty(''b'' \<mapsto> StateOff)))))) = []"
    by simp
  from dispatch_contract[OF tick a findDeviceById_exDevices(1), of "\<lambda>dev turnOn. True" Map.empty]
  have 3: "lastCommandedRadiatorState (snd (snd (heatingControlLoop exDevices
        ?rooms 0 (\<lambda>dev turnOn. True) Map.empty Map.empty))) ''a'' = Some StateOn"
    by simp
  from 1 2 3 show ?thesis by blast
qed

lemma orphan_commands:
  "computeCommands exDevices (pruneBoosts 0 Map.empty) Map.empty [(exRoomOrphan, exEnv SensorError)] =
     [(''x'', StateOn)]"
proof -
  have m: "controlMode exRoomOrphan = ''schedule''"
    by (simp add: exRoomOrphan_def)
  have "roomDesired exDevices (pruneBoosts 0 Map.empty) Map.empty (exEnv SensorError)
          exRoomOrphan ''x'' = StateOn"
    using roomDesired_schedule[of exRoomOrphan "pruneBoosts 0 Map.empty", OF m]
    by (simp add: pruneBoosts_def currentTime_exEnv)
      (simp add: todaysSchedule_def exRoomOrphan_def exEnv_def slotMatches_def enabledIdsInSlot_def)
  then show ?thesis
    by (simp add: computeCommands_def processRoom_def) (simp add: exRoomOrphan_def)
qed

lemma findDeviceById_orphan: "findDeviceById exDevices ''x'' = None"
  by (simp add: exDevices_def exRadiatorA_def exRadiatorB_def exSensorDevice_def)

text \<open>
  C4 as worded ("every device") fails for a device outside the registry: the attic room's radiator
  \<open>x\<close> has desired state on and no cache entry, so the two differ, and the tick makes no
  request at all.
\<close>

theorem dispatch_unregistered_counterexample:
  "map_of (fst (snd (heatingControlLoop exDevices [(exRoomOrphan, exEnv SensorError)] 0
             (\<lambda>dev turnOn. True) Map.empty Map.empty))) ''x'' = Some StateOn \<and>
   (Map.empty :: string \<rightharpoonup> radiator_state) ''x'' \<noteq> Some StateOn \<and>
   relayCalls (snd (snd (heatingControlLoop exDevices [(exRoomOrphan, exEnv SensorError)] 0
             (\<lambda>dev turnOn. True) Map.empty Map.empty))) = []"
  by (simp add: heatingControlLoop_def Let_def orphan_commands applyCommands_def
      applyCommand_missing[OF findDeviceById_orphan])

text \<open>
  C8, as the code has it. A radiator id that a room lists and that is not in the device
  registry gets its desired state computed like any other (it is not forced to off); the
  dispatch loop then logs that the device is not found and skips it: no request is made
  for it and its cache entry is left as it was. The tick completes.
\<close>

theorem missing_device_skipped:
  assumes "heatingControlLoop devices rooms now setRelay activeBoosts lastState = (boosts', cmds, st)"
    and "map_of cmds d = Some desired"
    and "findDeviceById devices d = None"
  shows "filter (\<lambda>c. fst c = d) (relayCalls st) = [] \<and>
         lastCommandedRadiatorState st d = lastState d \<and>
         DeviceNotFound d \<in> set (errorLog st)"
proof -
  note t = tick_components[OF assms(1)]
  have dist: "distinct (map fst cmds)"
    unfolding t(2) by (rule distinct_computeCommands)
  have mem: "(d, desired) \<in> set cmds"
    using assms(2) by (rule map_of_SomeD)
  show ?thesis
    unfolding t(3)
    by (simp add: applyCommands_missing[OF dist mem assms(3)])
qed

theorem missing_device_skipped_witness:
  "filter (\<lambda>c. fst c = ''x'')
     (relayCalls (snd (snd (heatingControlLoop exDevices [(exRoomOrphan, exEnv SensorError)] 0
        (\<lambda>dev turnOn. True) Map.empty Map.empty)))) = [] \<and>
   lastCommandedRadiatorState (snd (snd (heatingControlLoop exDevices
        [(exRoomOrphan, exEnv SensorError)] 0 (\<lambda>dev turnOn. True) Map.empty Map.empty))) ''x''
     = None \<and>
   DeviceNotFound ''x'' \<in> set (errorLog (snd (snd (heatingControlLoop exDevices
        [(exRoomOrphan, exEnv SensorError)] 0 (\<lambda>dev turnOn. True) Map.empty Map.empty))))"
proof -
  have tick: "heatingControlLoop exDevices [(exRoomOrphan, exEnv SensorError)] 0 sr Map.empty Map.empty =
      (pruneBoosts 0 Map.empty, [(''x'', StateOn)],
       snd (snd (heatingControlLoop exDevices [(exRoomOrphan, exEnv SensorError)] 0 sr
                   Map.empty Map.empty)))" for sr
    by (simp add: heatingControlLoop_def Let_def orphan_commands)
  have x: "map_of [(''x'', StateOn)] ''x'' = Some StateOn" by simp
  from missing_device_skipped[OF tick x findDeviceById_orphan, of "\<lambda>dev turnOn. True"]
  show ?thesis by simp
qed

text \<open>
  C8 as worded ("defaults to off") fails: the attic room's radiator \<open>x\<close> is not in the registry, and its
  desired state in the tick is on, not off.
\<close>

theorem missing_device_desired_on_counterexample:
  "findDeviceById exDevices ''x'' = None \<and>
   ''x'' \<in> set (radiatorDeviceIds exRoomOrphan) \<and>
   map_of (fst (snd (heatingControlLoop exDevices [(exRoomOrphan, exEnv SensorError)] 0
             (\<lambda>dev turnOn. True) Map.empty Map.empty))) ''x'' = Some StateOn"
  by (simp add: heatingControlLoop_def Let_def orphan_commands findDeviceById_orphan)
    (simp add: exRoomOrphan_def)

subsection \<open>Boost store\<close>

lemma applyOp_keeps_absent:
  assumes "bs rid = None" and "\<not> startsBoostFor rid op"
  shows "applyOp op bs rid = None"
proof (cases op)
  case (OpStart rooms now rid' dur ids)
  with assms(2) have "rid' \<noteq> rid" by simp
  with assms(1) show ?thesis
    unfolding OpStart
    by (auto simp: startBoost_def Let_def split: option.splits)
next
  case (OpCancel rid')
  with assms(1) show ?thesis by (auto simp: cancelBoost_def split: option.splits)
next
  case (OpStatus now rid')
  with assms(1) show ?thesis by (auto simp: boostStatus_def Let_def split: option.splits)
next
  case (OpBoosted now)
  with assms(1) show ?thesis by (simp add: boostedRooms_def)
next
  case (OpPrune now)
  with assms(1) show ?thesis by (simp add: pruneBoosts_def)
qed

lemma fold_applyOp_keeps_absent:
  "bs rid = None \<Longrightarrow> \<forall>op \<in> set ops. \<not> startsBoostFor rid op \<Longrightarrow> fold applyOp ops bs rid = None"
  by (induction ops arbitrary: bs) (simp_all add: applyOp_keeps_absent)

text \<open>
  C9. Boost expiry is monotone. The prune of a tick removes every entry with
  \<open>until \<le> now\<close> (and keeps the others); it runs first in the tick, whose commands are
  computed from the pruned store. Once a room's entry has been pruned at a time
  \<open>now \<ge> until\<close>, then after any sequence of later operations on the store that starts no
  new boost for that room (boosts for other rooms, cancels, status queries, listings,
  later prunes), a status query for the room, at whatever time, answers not boosted, and
  the listing of boosted rooms does not have the room.
\<close>

theorem boost_expiry_monotone:
  assumes "activeBoosts rid = Some b" and "until b = ValidDate u" and "u \<le> now"
    and "\<forall>op \<in> set ops. \<not> startsBoostFor rid op"
  shows "(\<forall>rid' b'. activeBoosts rid' = Some b' \<longrightarrow>
            pruneBoosts now activeBoosts rid' =
              (if (\<exists>u'. until b' = ValidDate u' \<and> u' \<le> now) then None else Some b')) \<and>
         pruneBoosts now activeBoosts rid = None \<and>
         fst (heatingControlLoop devices rooms now setRelay activeBoosts lastState) =
           pruneBoosts now activeBoosts \<and>
         fst (snd (heatingControlLoop devices rooms now setRelay activeBoosts lastState)) =
           computeCommands devices (pruneBoosts now activeBoosts) lastState rooms \<and>
         fst (boostStatus t rid (fold applyOp ops (pruneBoosts now activeBoosts))) = NotBoosted \<and>
         fst (boostedRooms t (fold applyOp ops (pruneBoosts now activeBoosts))) rid = None"
proof -
  have p: "pruneBoosts now activeBoosts rid = None"
    using assms(1,2,3) by (simp add: pruneBoosts_def)
  have q: "fold applyOp ops (pruneBoosts now activeBoosts) rid = None"
    using p assms(4) by (rule fold_applyOp_keeps_absent)
  have le: "dateLessEq d now \<longleftrightarrow> (\<exists>u'. d = ValidDate u' \<and> u' \<le> now)" for d
    by (cases d) simp_all
  have a: "\<forall>rid' b'. activeBoosts rid' = Some b' \<longrightarrow>
            pruneBoosts now activeBoosts rid' =
              (if (\<exists>u'. until b' = ValidDate u' \<and> u' \<le> now) then None else Some b')"
    by (simp add: pruneBoosts_def le)
  have s: "fst (boostStatus t rid (fold applyOp ops (pruneBoosts now activeBoosts))) = NotBoosted"
    using q by (simp add: boostStatus_def)
  have l: "fst (boostedRooms t (fold applyOp ops (pruneBoosts now activeBoosts))) rid = None"
    using q by (simp add: boostedRooms_def)
  have h: "fst (heatingControlLoop devices rooms now setRelay activeBoosts lastState) =
             pruneBoosts now activeBoosts"
    "fst (snd (heatingControlLoop devices rooms now setRelay activeBoosts lastState)) =
       computeCommands devices (pruneBoosts now activeBoosts) lastState rooms"
    by (simp_all add: heatingControlLoop_def Let_def)
  from a p h s l show ?thesis by blast
qed

theorem boost_expiry_monotone_witness:
  "pruneBoosts 1000 exBoosts ''r1'' = None \<and>
   fst (boostStatus 1500 ''r1''
          (fold applyOp
             [OpStatus 1100 ''r1'', OpCancel ''r1'',
              OpStart [exRoomThermostat] 1200 ''r2'' (Some 30) None, OpBoosted 1300, OpPrune 1400]
             (pruneBoosts 1000 exBoosts))) = NotBoosted"
proof -
  let ?ops = "[OpStatus 1100 ''r1'', OpCancel ''r1'',
               OpStart [exRoomThermostat] 1200 ''r2'' (Some 30) None, OpBoosted 1300, OpPrune 1400]"
  have e: "exBoosts ''r1'' = Some \<lparr>until = ValidDate 1000, radiatorIds = [''b'']\<rparr>"
    by (simp add: exBoosts_def)
  have v: "until \<lparr>until = ValidDate 1000, radiatorIds = [''b'']\<rparr> = ValidDate 1000" by simp
  have u: "(1000::int) \<le> 1000" by simp
  have o: "\<forall>op \<in> set ?ops. \<not> startsBoostFor ''r1'' op" by simp
  from boost_expiry_monotone[of exBoosts "''r1''"
      "\<lparr>until = ValidDate 1000, radiatorIds = [''b'']\<rparr>" 1000 1000
      ?ops exDevices "[]" "\<lambda>dev turnOn. True" Map.empty 1500, OF e v u o]
  show ?thesis by blast
qed

text \<open>
  C5, as the code has it. Starting a boost fails with \<open>InvalidInput\<close> when the duration is
  not positive; else with \<open>NotFound\<close> when the room is unknown; else with \<open>InvalidInput\<close>
  when a non-empty list of radiator ids is given and none of them is a radiator of the
  room. Otherwise it succeeds: the boosted radiators are all of the room's when no list or
  an empty list is given, else the given ids that are radiators of the room; when now plus
  the duration (in milliseconds, 60000 a minute) is an instant a \<^verbatim>\<open>Date\<close> can hold, the
  expiry is that instant; the room's entry in the store is set to this boost whatever it
  was before; the answer carries the boosted radiators and the expiry. A failed request
  leaves the store as it was.
\<close>

theorem startBoost_contract:
  "(durationMinutes = Some dur \<and> dur \<le> 0 \<longrightarrow>
      startBoost rooms now rid durationMinutes req bs = (Inl InvalidInput, bs)) \<and>
   (durationMinutes = Some dur \<and> 0 < dur \<and> findRoom rooms rid = None \<longrightarrow>
      startBoost rooms now rid durationMinutes req bs = (Inl NotFound, bs)) \<and>
   (durationMinutes = Some dur \<and> 0 < dur \<and> findRoom rooms rid = Some r \<and>
    req = Some ids \<and> ids \<noteq> [] \<and> set ids \<inter> set (radiatorDeviceIds r) = {} \<longrightarrow>
      startBoost rooms now rid durationMinutes req bs = (Inl InvalidInput, bs)) \<and>
   (durationMinutes = Some dur \<and> 0 < dur \<and> findRoom rooms rid = Some r \<and>
    (req = None \<or> req = Some []) \<and> \<bar>now + dur * 60000\<bar> \<le> 8640000000000000 \<longrightarrow>
      startBoost rooms now rid durationMinutes req bs =
        (Inr \<lparr>respRoomId = rid, boostedRadiators = radiatorDeviceIds r,
              boostUntil = ValidDate (now + dur * 60000), remainingMinutes = dur\<rparr>,
         bs(rid \<mapsto> \<lparr>until = ValidDate (now + dur * 60000),
                     radiatorIds = radiatorDeviceIds r\<rparr>))) \<and>
   (durationMinutes = Some dur \<and> 0 < dur \<and> findRoom rooms rid = Some r \<and>
    req = Some ids \<and> set ids \<inter> set (radiatorDeviceIds r) \<noteq> {} \<and>
    \<bar>now + dur * 60000\<bar> \<le> 8640000000000000 \<longrightarrow>
      startBoost rooms now rid durationMinutes req bs =
        (Inr \<lparr>respRoomId = rid,
              boostedRadiators = filter (\<lambda>i. i \<in> set (radiatorDeviceIds r)) ids,
              boostUntil = ValidDate (now + dur * 60000), remainingMinutes = dur\<rparr>,
         bs(rid \<mapsto> \<lparr>until = ValidDate (now + dur * 60000),
                     radiatorIds = filter (\<lambda>i. i \<in> set (radiatorDeviceIds r)) ids\<rparr>)))"
proof -
  have e: "filter (\<lambda>i. i \<in> set xs) ids = [] \<longleftrightarrow> set ids \<inter> set xs = {}" for xs :: "string list"
    by (auto simp: filter_empty_conv)
  show ?thesis
  proof (cases req)
    case None
    then show ?thesis by (auto simp: startBoost_def Let_def newDate_def)
  next
    case (Some given)
    then show ?thesis by (auto simp: startBoost_def Let_def newDate_def e)
  qed
qed

lemma findRoom_exRoomSchedule: "findRoom [exRoomSchedule] ''r1'' = Some exRoomSchedule"
  by (simp add: exRoomSchedule_def)

theorem startBoost_contract_witness:
  "startBoost [exRoomSchedule] 5000 ''r1'' (Some 0) None exBoosts = (Inl InvalidInput, exBoosts) \<and>
   startBoost [exRoomSchedule] 5000 ''r9'' (Some 30) None exBoosts = (Inl NotFound, exBoosts) \<and>
   startBoost [exRoomSchedule] 5000 ''r1'' (Some 30) (Some [''z'']) exBoosts =
     (Inl InvalidInput, exBoosts) \<and>
   startBoost [exRoomSchedule] 5000 ''r1'' (Some 30) None exBoosts =
     (Inr \<lparr>respRoomId = ''r1'', boostedRadiators = [''a'', ''b''],
           boostUntil = ValidDate 1805000, remainingMinutes = 30\<rparr>,
      exBoosts(''r1'' \<mapsto> \<lparr>until = ValidDate 1805000, radiatorIds = [''a'', ''b'']\<rparr>)) \<and>
   startBoost [exRoomSchedule] 5000 ''r1'' (Some 30) (Some [''z'', ''a'']) exBoosts =
     (Inr \<lparr>respRoomId = ''r1'', boostedRadiators = [''a''],
           boostUntil = ValidDate 1805000, remainingMinutes = 30\<rparr>,
      exBoosts(''r1'' \<mapsto> \<lparr>until = ValidDate 1805000, radiatorIds = [''a'']\<rparr>))"
proof -
  have rs: "radiatorDeviceIds exRoomSchedule = [''a'', ''b'']"
    by (simp add: exRoomSchedule_def)
  have nf: "findRoom [exRoomSchedule] ''r9'' = None"
    by (simp add: exRoomSchedule_def)
  have rg: "\<bar>5000 + 30 * 60000\<bar> \<le> (8640000000000000::int)" by simp
  have 1: "startBoost [exRoomSchedule] 5000 ''r1'' (Some 0) None exBoosts = (Inl InvalidInput, exBoosts)"
    using startBoost_contract[of "Some 0" 0 "[exRoomSchedule]" 5000 "''r1''" None exBoosts]
    by simp
  have 2: "startBoost [exRoomSchedule] 5000 ''r9'' (Some 30) None exBoosts = (Inl NotFound, exBoosts)"
    using startBoost_contract[of "Some 30" 30 "[exRoomSchedule]" 5000 "''r9''" None exBoosts] nf
    by simp
  have 3: "startBoost [exRoomSchedule] 5000 ''r1'' (Some 30) (Some [''z'']) exBoosts =
     (Inl InvalidInput, exBoosts)"
    using startBoost_contract[of "Some 30" 30 "[exRoomSchedule]" 5000 "''r1''" "Some [''z'']"
        exBoosts exRoomSchedule "[''z'']"] findRoom_exRoomSchedule rs
    by simp
  have 4: "startBoost [exRoomSchedule] 5000 ''r1'' (Some 30) None exBoosts =
     (Inr \<lparr>respRoomId = ''r1'', boostedRadiators = [''a'', ''b''],
           boostUntil = ValidDate 1805000, remainingMinutes = 30\<rparr>,
      exBoosts(''r1'' \<mapsto> \<lparr>until = ValidDate 1805000, radiatorIds = [''a'', ''b'']\<rparr>))"
    using startBoost_contract[of "Some 30" 30 "[exRoomSchedule]" 5000 "''r1''" None
        exBoosts exRoomSchedule] findRoom_exRoomSchedule rs rg
    by simp
  have 5: "startBoost [exRoomSchedule] 5000 ''r1'' (Some 30) (Some [''z'', ''a'']) exBoosts =
     (Inr \<lparr>respRoomId = ''r1'', boostedRadiators = [''a''],
           boostUntil = ValidDate 1805000, remainingMinutes = 30\<rparr>,
      exBoosts(''r1'' \<mapsto> \<lparr>until = ValidDate 1805000, radiatorIds = [''a'']\<rparr>))"
    using startBoost_contract[of "Some 30" 30 "[exRoomSchedule]" 5000 "''r1''" "Some [''z'', ''a'']"
        exBoosts exRoomSchedule "[''z'', ''a'']"] findRoom_exRoomSchedule rs rg
    by simp
  from 1 2 3 4 5 show ?thesis by blast
qed

text \<open>
  C5 as worded fails for a list that is given and empty: its intersection with the
  room's radiators is empty, yet the request succeeds and boosts every radiator of the room.
\<close>

theorem startBoost_empty_list_counterexample:
  "set ([] :: string list) \<inter> set (radiatorDeviceIds exRoomSchedule) = {} \<and>
   fst (startBoost [exRoomSchedule] 5000 ''r1'' (Some 30) (Some []) Map.empty) =
     Inr \<lparr>respRoomId = ''r1'', boostedRadiators = [''a'', ''b''],
          boostUntil = ValidDate 1805000, remainingMinutes = 30\<rparr>"
  by (simp add: startBoost_def Let_def newDate_def findRoom_exRoomSchedule)
    (simp add: exRoomSchedule_def)

text \<open>
  Beyond the range of \<^verbatim>\<open>Date\<close> the request still succeeds and stores the invalid date,
  which no prune removes, since \<^verbatim>\<open>until <= now\<close> is false of NaN.
\<close>

lemma startBoost_beyond_date_range:
  assumes "0 < dur" and "findRoom rooms rid = Some r"
    and "8640000000000000 < now + dur * 60000"
  shows "startBoost rooms now rid (Some dur) None bs =
           (Inr \<lparr>respRoomId = rid, boostedRadiators = radiatorDeviceIds r,
                 boostUntil = InvalidDate, remainingMinutes = dur\<rparr>,
            bs(rid \<mapsto> \<lparr>until = InvalidDate, radiatorIds = radiatorDeviceIds r\<rparr>))"
  using assms by (simp add: startBoost_def Let_def newDate_def)

lemma pruneBoosts_keeps_invalid_date:
  assumes "bs rid = Some b" and "until b = InvalidDate"
  shows "pruneBoosts now bs rid = Some b"
  using assms by (simp add: pruneBoosts_def)

end
